theory Spec2Isabelle
  imports Main "HOL-Library.Word"
begin

section \<open>Bytes, strings and the codecs of the Go standard library\<close>

type_synonym byte = "8 word"
type_synonym bytes = "byte list"
type_synonym ref = nat

text \<open>Go's conversions \<^verbatim>\<open>[]byte(s)\<close> and \<^verbatim>\<open>string(b)\<close>: a string is its byte sequence.\<close>

definition bytes_of_string :: "string \<Rightarrow> bytes" where
  "bytes_of_string s = map (\<lambda>c. of_nat (of_char c)) s"

definition string_of_bytes :: "bytes \<Rightarrow> string" where
  "string_of_bytes bs = map (\<lambda>b. char_of (unat b)) bs"

text \<open>\<^verbatim>\<open>encoding/hex\<close>: two lower-case digits per byte; decoding accepts both cases and
  fails on an odd length or a character that is no hex digit.\<close>

definition hextable :: string where
  "hextable = ''0123456789abcdef''"

fun hex_EncodeToString :: "bytes \<Rightarrow> string" where
  "hex_EncodeToString [] = []"
| "hex_EncodeToString (b # bs) =
     hextable ! (unat b div 16) # hextable ! (unat b mod 16) # hex_EncodeToString bs"

definition fromHexChar :: "char \<Rightarrow> nat option" where
  "fromHexChar c =
     (let n = (of_char c :: nat) in
      if 48 \<le> n \<and> n \<le> 57 then Some (n - 48)
      else if 97 \<le> n \<and> n \<le> 102 then Some (n - 97 + 10)
      else if 65 \<le> n \<and> n \<le> 70 then Some (n - 65 + 10)
      else None)"

fun hex_DecodeString :: "string \<Rightarrow> bytes option" where
  "hex_DecodeString [] = Some []"
| "hex_DecodeString [c] = None"
| "hex_DecodeString (c # d # s) =
     (case fromHexChar c of
        None \<Rightarrow> None
      | Some a \<Rightarrow>
          (case fromHexChar d of
             None \<Rightarrow> None
           | Some b \<Rightarrow>
               (case hex_DecodeString s of
                  None \<Rightarrow> None
                | Some bs \<Rightarrow> Some (of_nat (a * 16 + b) # bs))))"

text \<open>\<^verbatim>\<open>math/big\<close>: \<^verbatim>\<open>Text(10)\<close> prints an optional minus sign and the decimal digits;
  \<^verbatim>\<open>SetString(s, 10)\<close> reads an optional sign and at least one digit, and fails unless the
  whole string is consumed; \<^verbatim>\<open>Uint64\<close> returns the low 64 bits of the absolute value.\<close>

definition digit_char :: "nat \<Rightarrow> char" where
  "digit_char d = ''0123456789'' ! d"

fun nat_Text :: "nat \<Rightarrow> string" where
  "nat_Text n = (if n < 10 then [digit_char n] else nat_Text (n div 10) @ [digit_char (n mod 10)])"

declare nat_Text.simps [simp del]

definition Int_Text :: "int \<Rightarrow> string" where
  "Int_Text i = (if i < 0 then CHR ''-'' # nat_Text (nat (- i)) else nat_Text (nat i))"

definition digit_val :: "char \<Rightarrow> nat option" where
  "digit_val c =
     (let n = (of_char c :: nat) in if 48 \<le> n \<and> n \<le> 57 then Some (n - 48) else None)"

fun scan_digits :: "string \<Rightarrow> nat \<Rightarrow> nat option" where
  "scan_digits [] acc = Some acc"
| "scan_digits (c # s) acc =
     (case digit_val c of None \<Rightarrow> None | Some d \<Rightarrow> scan_digits s (acc * 10 + d))"

definition Int_SetString :: "string \<Rightarrow> int option" where
  "Int_SetString s =
     (case s of
        [] \<Rightarrow> None
      | c # r \<Rightarrow>
          if c = CHR ''-'' then (if r = [] then None else map_option (\<lambda>n. - int n) (scan_digits r 0))
          else if c = CHR ''+'' then (if r = [] then None else map_option int (scan_digits r 0))
          else map_option int (scan_digits s 0))"

definition Int_Uint64 :: "int \<Rightarrow> 64 word" where
  "Int_Uint64 i = of_nat (nat \<bar>i\<bar>)"

section \<open>Packages outside the sources at hand\<close>

text \<open>
  The functions of the packages \<^verbatim>\<open>common\<close> and \<^verbatim>\<open>ahash\<close> and the hash of the tree
  engine that the state layer calls are not among the source files. They are parameters of
  the model: \<open>SHA256\<close> is \<^verbatim>\<open>ahash.SHA256\<close>, \<open>Checksum\<close> the content-derived root of a
  tree, \<open>Address_String\<close> and \<open>StrB58ToAddress\<close> the string form of an address and its
  reader, \<open>Address_zero\<close> the zero value of \<^verbatim>\<open>common.Address\<close>, \<open>Bytes2Hash\<close> is
  \<^verbatim>\<open>common.Bytes2Hash\<close>, and \<open>SortAndEncodeMap\<close> and \<open>StringDecodeMap\<close> are the string form
  of a \<^verbatim>\<open>map[string]string\<close> and its reader (\<open>None\<close> is the nil map).
  An address and a hash are modelled by their bytes.
\<close>

record ext =
  SHA256 :: "bytes \<Rightarrow> bytes"
  Checksum :: "(bytes \<rightharpoonup> bytes) \<Rightarrow> bytes"
  Address_String :: "bytes \<Rightarrow> string"
  StrB58ToAddress :: "string \<Rightarrow> bytes"
  Address_zero :: bytes
  Bytes2Hash :: "bytes \<Rightarrow> bytes"
  SortAndEncodeMap :: "(string \<rightharpoonup> string) \<Rightarrow> string"
  StringDecodeMap :: "string \<Rightarrow> (string \<rightharpoonup> string) option"
  Keccak256Hash :: "bytes \<Rightarrow> bytes"

text \<open>Modelled from the spec: \<^verbatim>\<open>common.HashZ\<close> and the zero value \<^verbatim>\<open>common.Hash{}\<close>, whose
  declarations are missing; the storage root is emitted "only if non-zero" and a hash is a
  SHA-256 value, so both are 32 zero bytes.\<close>

definition HashZ :: bytes where
  "HashZ = replicate 32 0"

section \<open>The heap\<close>

text \<open>
  The program shares \<^verbatim>\<open>*big.Int\<close>, \<^verbatim>\<open>*stateObject\<close>, \<^verbatim>\<open>*avlmerkle.Tree\<close> and
  \<^verbatim>\<open>*StateDB\<close> pointers, and several claims depend on the aliasing, so every pointer target
  lives in an explicit store. \<open>zeroBigN\<close> is the package-level variable
  \<^verbatim>\<open>var zeroBigN = new(big.Int).SetInt64(0)\<close>; \<open>NewInt n\<close> is the n-th integer allocated by
  \<^verbatim>\<open>new(big.Int)\<close> afterwards. A nil pointer, slice, map or interface is \<open>None\<close>.
\<close>

datatype IntPtr = zeroBigN | NewInt nat

datatype error = NilMapAssign | NilDeref | StorageError

text \<open>Modelled from the spec: \<^verbatim>\<open>avlmerkle.Tree\<close>, a handle on a versioned byte-key to
  byte-value map (section 4.1): the medium it was opened on and its current entries, which
  are the version it was opened at plus the writes pending on this handle.\<close>

record Tree =
  tdb :: "ref option"
  entries :: "bytes \<rightharpoonup> bytes"

record stateObject =
  merkleTree :: "ref option"
  address :: bytes
  balance :: "IntPtr option"
  nonce :: "64 word"
  extra :: "bytes option"
  code :: "bytes option"
  stateRoot :: bytes
  cacheStorage :: "(bytes \<rightharpoonup> bytes) option"
  db :: "ref option"

text \<open>\<open>st_merkleTree\<close> is the field \<^verbatim>\<open>merkleTree\<close> of \<^verbatim>\<open>StateDB\<close>; \<^verbatim>\<open>NewStateDB\<close> always
  sets it.\<close>

record StateDB =
  root :: bytes
  treeDB :: "ref option"
  st_merkleTree :: ref
  objs :: "bytes \<rightharpoonup> ref"

text \<open>\<open>stores h d r\<close> is the version of the tree that the medium \<open>d\<close> holds under the
  root \<open>r\<close>.\<close>

record heap =
  bigs :: "IntPtr \<Rightarrow> int"
  big_count :: nat
  sobjs :: "ref \<Rightarrow> stateObject"
  sobj_count :: nat
  trees :: "ref \<Rightarrow> Tree"
  tree_count :: nat
  stores :: "ref \<Rightarrow> bytes \<rightharpoonup> (bytes \<rightharpoonup> bytes)"
  sdbs :: "ref \<Rightarrow> StateDB"
  sdb_count :: nat

definition new_Int :: "int \<Rightarrow> heap \<Rightarrow> IntPtr \<times> heap" where
  "new_Int v h =
     (NewInt (big_count h),
      h\<lparr>bigs := (bigs h)(NewInt (big_count h) := v), big_count := Suc (big_count h)\<rparr>)"

definition new_stateObject :: "stateObject \<Rightarrow> heap \<Rightarrow> ref \<times> heap" where
  "new_stateObject obj h =
     (sobj_count h, h\<lparr>sobjs := (sobjs h)(sobj_count h := obj), sobj_count := Suc (sobj_count h)\<rparr>)"

definition new_Tree :: "Tree \<Rightarrow> heap \<Rightarrow> ref \<times> heap" where
  "new_Tree t h =
     (tree_count h, h\<lparr>trees := (trees h)(tree_count h := t), tree_count := Suc (tree_count h)\<rparr>)"

definition new_StateDB_ptr :: "StateDB \<Rightarrow> heap \<Rightarrow> ref \<times> heap" where
  "new_StateDB_ptr s h =
     (sdb_count h, h\<lparr>sdbs := (sdbs h)(sdb_count h := s), sdb_count := Suc (sdb_count h)\<rparr>)"

definition upd_obj :: "ref \<Rightarrow> (stateObject \<Rightarrow> stateObject) \<Rightarrow> heap \<Rightarrow> heap" where
  "upd_obj so f h = h\<lparr>sobjs := (sobjs h)(so := f (sobjs h so))\<rparr>"

definition upd_sdb :: "ref \<Rightarrow> (StateDB \<Rightarrow> StateDB) \<Rightarrow> heap \<Rightarrow> heap" where
  "upd_sdb st f h = h\<lparr>sdbs := (sdbs h)(st := f (sdbs h st))\<rparr>"

text \<open>The state of the process before any call: \<open>zeroBigN\<close> holds 0, nothing else is
  allocated, no medium holds a version.\<close>

definition zero_stateObject :: "ext \<Rightarrow> stateObject" where
  "zero_stateObject X =
     \<lparr>merkleTree = None, address = Address_zero X, balance = None, nonce = 0, extra = None,
      code = None, stateRoot = HashZ, cacheStorage = None, db = None\<rparr>"

definition heap0 :: "ext \<Rightarrow> heap" where
  "heap0 X =
     \<lparr>bigs = (\<lambda>p. 0), big_count = 0,
      sobjs = (\<lambda>r. zero_stateObject X), sobj_count = 0,
      trees = (\<lambda>r. \<lparr>tdb = None, entries = Map.empty\<rparr>), tree_count = 0,
      stores = (\<lambda>d. Map.empty),
      sdbs = (\<lambda>r. \<lparr>root = [], treeDB = None, st_merkleTree = 0, objs = Map.empty\<rparr>),
      sdb_count = 0\<rparr>"

section \<open>The tree engine\<close>

text \<open>Modelled from the spec: the operations of \<^verbatim>\<open>avlmerkle.Tree\<close> (section 4.1).
  \<^verbatim>\<open>NewTree(db, root)\<close> returns a new handle on the version stored under \<open>root\<close> (the empty
  tree when the medium holds none); \<^verbatim>\<open>Get\<close> returns the value and whether it was found;
  \<^verbatim>\<open>Put\<close> is an upsert pending on the handle; \<^verbatim>\<open>Checksum\<close> is derived from the content;
  \<^verbatim>\<open>Copy\<close> returns an independent handle with the same content.\<close>

definition version_at :: "heap \<Rightarrow> ref option \<Rightarrow> bytes \<Rightarrow> (bytes \<rightharpoonup> bytes)" where
  "version_at h d r =
     (case d of
        None \<Rightarrow> Map.empty
      | Some m \<Rightarrow> (case stores h m r of None \<Rightarrow> Map.empty | Some es \<Rightarrow> es))"

definition NewTree :: "ref option \<Rightarrow> bytes \<Rightarrow> heap \<Rightarrow> ref \<times> heap" where
  "NewTree d r h = new_Tree \<lparr>tdb = d, entries = version_at h d r\<rparr> h"

definition Tree_Get :: "ref \<Rightarrow> bytes \<Rightarrow> heap \<Rightarrow> bytes option" where
  "Tree_Get t k h = entries (trees h t) k"

definition Tree_Put :: "ref \<Rightarrow> bytes \<Rightarrow> bytes \<Rightarrow> heap \<Rightarrow> heap" where
  "Tree_Put t k v h = h\<lparr>trees := (trees h)(t := (trees h t)\<lparr>entries := (entries (trees h t))(k \<mapsto> v)\<rparr>)\<rparr>"

definition Tree_Checksum :: "ext \<Rightarrow> ref \<Rightarrow> heap \<Rightarrow> bytes" where
  "Tree_Checksum X t h = Checksum X (entries (trees h t))"



section \<open>stateObject\<close>

definition loadBytesByMapKey :: "(string \<rightharpoonup> string) \<Rightarrow> string \<Rightarrow> bytes option" where
  "loadBytesByMapKey m key =
     (case m key of None \<Rightarrow> None | Some str \<Rightarrow> hex_DecodeString str)"

text \<open>\<^verbatim>\<open>Decode\<close> writes the fields it can read into the receiver and leaves the others as
  they are; it returns nil in every branch. Each \<^verbatim>\<open>new(big.Int)\<close> allocates.\<close>

definition Decode_balance :: "ref \<Rightarrow> (string \<rightharpoonup> string) \<Rightarrow> heap \<Rightarrow> heap" where
  "Decode_balance so r h =
     (case r ''balance'' of
        None \<Rightarrow> h
      | Some bal \<Rightarrow>
          (case Int_SetString bal of
             None \<Rightarrow> snd (new_Int 0 h)
           | Some v \<Rightarrow>
               (let (num, h1) = new_Int v h
                in upd_obj so (\<lambda>obj. obj\<lparr>balance := Some num\<rparr>) h1)))"

definition Decode_nonce :: "ref \<Rightarrow> (string \<rightharpoonup> string) \<Rightarrow> heap \<Rightarrow> heap" where
  "Decode_nonce so r h =
     (case r ''nonce'' of
        None \<Rightarrow> h
      | Some non \<Rightarrow>
          (case Int_SetString non of
             None \<Rightarrow> snd (new_Int 0 h)
           | Some v \<Rightarrow>
               (let (num, h1) = new_Int v h
                in upd_obj so (\<lambda>obj. obj\<lparr>nonce := Int_Uint64 (bigs h1 num)\<rparr>) h1)))"

definition stateObject_Decode :: "ext \<Rightarrow> ref \<Rightarrow> bytes \<Rightarrow> heap \<Rightarrow> error option \<times> heap" where
  "stateObject_Decode X so data h =
     (case StringDecodeMap X (string_of_bytes data) of
        None \<Rightarrow> (None, h)
      | Some r \<Rightarrow>
          (let h1 = (case r ''address'' of
                       None \<Rightarrow> h
                     | Some a \<Rightarrow> upd_obj so (\<lambda>obj. obj\<lparr>address := StrB58ToAddress X a\<rparr>) h);
               h2 = Decode_balance so r h1;
               h3 = Decode_nonce so r h2;
               h4 = (case r ''code'' of
                       None \<Rightarrow> h3
                     | Some e \<Rightarrow>
                         (case hex_DecodeString e of
                            None \<Rightarrow> h3
                          | Some bs \<Rightarrow> upd_obj so (\<lambda>obj. obj\<lparr>code := Some bs\<rparr>) h3));
               h5 = (case loadBytesByMapKey r ''state_root'' of
                       None \<Rightarrow> h4
                     | Some bs \<Rightarrow> upd_obj so (\<lambda>obj. obj\<lparr>stateRoot := Bytes2Hash X bs\<rparr>) h4)
           in (None, h5)))"

text \<open>\<^verbatim>\<open>Text\<close> on a nil \<^verbatim>\<open>*big.Int\<close> prints \<^verbatim>\<open><nil>\<close>; \<^verbatim>\<open>hex.EncodeToString(nil)\<close> is the
  empty string.\<close>

definition big_Text :: "IntPtr option \<Rightarrow> heap \<Rightarrow> string" where
  "big_Text p h = (case p of None \<Rightarrow> ''<nil>'' | Some q \<Rightarrow> Int_Text (bigs h q))"

definition slice_bytes :: "bytes option \<Rightarrow> bytes" where
  "slice_bytes b = (case b of None \<Rightarrow> [] | Some bs \<Rightarrow> bs)"

definition Encode_objmap :: "ext \<Rightarrow> stateObject \<Rightarrow> heap \<Rightarrow> (string \<rightharpoonup> string)" where
  "Encode_objmap X obj h =
     (let objmap = [''address'' \<mapsto> Address_String X (address obj),
                    ''balance'' \<mapsto> big_Text (balance obj) h,
                    ''nonce'' \<mapsto> nat_Text (unat (nonce obj)),
                    ''code'' \<mapsto> hex_EncodeToString (slice_bytes (code obj))];
          objmap1 = (if code obj \<noteq> None
                     then objmap(''code'' \<mapsto> hex_EncodeToString (slice_bytes (code obj)))
                     else objmap)
      in if stateRoot obj \<noteq> HashZ
         then objmap1(''state_root'' \<mapsto> hex_EncodeToString (stateRoot obj))
         else objmap1)"

definition stateObject_Encode :: "ext \<Rightarrow> ref \<Rightarrow> heap \<Rightarrow> bytes" where
  "stateObject_Encode X so h =
     bytes_of_string (SortAndEncodeMap X (Encode_objmap X (sobjs h so) h))"

definition NewStateObj :: "bytes \<Rightarrow> ref option \<Rightarrow> ref option \<Rightarrow> ext \<Rightarrow> heap \<Rightarrow> ref \<times> heap" where
  "NewStateObj addr tree d X h =
     new_stateObject
       ((zero_stateObject X)\<lparr>address := addr, merkleTree := tree, db := d,
                             cacheStorage := Some Map.empty\<rparr>) h"

definition stateObject_SetBalance :: "ref \<Rightarrow> IntPtr option \<Rightarrow> heap \<Rightarrow> heap" where
  "stateObject_SetBalance so val h =
     (case val of
        None \<Rightarrow> h
      | Some p \<Rightarrow>
          if sgn (bigs h p) < 0 then h
          else upd_obj so (\<lambda>obj. obj\<lparr>balance := Some p\<rparr>) h)"

text \<open>\<^verbatim>\<open>new(big.Int).Add(x, y)\<close> allocates the sum; \<^verbatim>\<open>z.Sub(x, y)\<close> overwrites the integer
  that \<open>z\<close> points to and returns \<open>z\<close>.\<close>

definition big_Add_new :: "IntPtr \<Rightarrow> IntPtr \<Rightarrow> heap \<Rightarrow> IntPtr \<times> heap" where
  "big_Add_new x y h = new_Int (bigs h x + bigs h y) h"

definition big_Sub :: "IntPtr \<Rightarrow> IntPtr \<Rightarrow> IntPtr \<Rightarrow> heap \<Rightarrow> IntPtr \<times> heap" where
  "big_Sub z x y h = (z, h\<lparr>bigs := (bigs h)(z := bigs h x - bigs h y)\<rparr>)"

definition stateObject_AddBalance :: "ref \<Rightarrow> IntPtr option \<Rightarrow> heap \<Rightarrow> heap" where
  "stateObject_AddBalance so val h =
     (case val of
        None \<Rightarrow> h
      | Some p \<Rightarrow>
          if sgn (bigs h p) \<le> 0 then h
          else
            (let oldBalance = (case balance (sobjs h so) of None \<Rightarrow> zeroBigN | Some q \<Rightarrow> q);
                 (newBalance, h1) = big_Add_new oldBalance p h
             in stateObject_SetBalance so (Some newBalance) h1))"

definition stateObject_SubBalance :: "ref \<Rightarrow> IntPtr option \<Rightarrow> heap \<Rightarrow> heap" where
  "stateObject_SubBalance so val h =
     (case val of
        None \<Rightarrow> h
      | Some p \<Rightarrow>
          if sgn (bigs h p) \<le> 0 then h
          else
            (let oldBalance = (case balance (sobjs h so) of None \<Rightarrow> zeroBigN | Some q \<Rightarrow> q);
                 (newBalance, h1) = big_Sub oldBalance oldBalance p h
             in stateObject_SetBalance so (Some newBalance) h1))"

definition stateObject_GetBalance :: "ref \<Rightarrow> heap \<Rightarrow> IntPtr option" where
  "stateObject_GetBalance so h = balance (sobjs h so)"

definition stateObject_SetNonce :: "ref \<Rightarrow> 64 word \<Rightarrow> heap \<Rightarrow> heap" where
  "stateObject_SetNonce so n h = upd_obj so (\<lambda>obj. obj\<lparr>nonce := n\<rparr>) h"



definition stateObject_SetState :: "ref \<Rightarrow> bytes \<Rightarrow> bytes \<Rightarrow> heap \<Rightarrow> error + heap" where
  "stateObject_SetState so key val h =
     (case cacheStorage (sobjs h so) of
        None \<Rightarrow> Inl NilMapAssign
      | Some cs \<Rightarrow> Inr (upd_obj so (\<lambda>obj. obj\<lparr>cacheStorage := Some (cs(key \<mapsto> val))\<rparr>) h))"

definition stateObject_makeStateKey :: "ext \<Rightarrow> ref \<Rightarrow> bytes \<Rightarrow> heap \<Rightarrow> bytes" where
  "stateObject_makeStateKey X so key h = SHA256 X (address (sobjs h so) @ key)"

definition stateObject_getStateTree :: "ref \<Rightarrow> heap \<Rightarrow> ref \<times> heap" where
  "stateObject_getStateTree so h = NewTree (db (sobjs h so)) (stateRoot (sobjs h so)) h"

definition stateObject_GetStateValue :: "ext \<Rightarrow> ref \<Rightarrow> bytes \<Rightarrow> heap \<Rightarrow> bytes option \<times> heap" where
  "stateObject_GetStateValue X so key h =
     (case (case cacheStorage (sobjs h so) of None \<Rightarrow> None | Some cs \<Rightarrow> cs key) of
        Some val \<Rightarrow> (Some val, h)
      | None \<Rightarrow>
          (let (t, h1) = stateObject_getStateTree so h
           in (Tree_Get t (stateObject_makeStateKey X so key h1) h1, h1)))"

definition stateObject_GetExtra :: "ref \<Rightarrow> heap \<Rightarrow> bytes option" where
  "stateObject_GetExtra so h = extra (sobjs h so)"

definition stateObject_GetCode :: "ref \<Rightarrow> heap \<Rightarrow> bytes option" where
  "stateObject_GetCode so h = code (sobjs h so)"



definition stateObject_GetStateRoot :: "ref \<Rightarrow> heap \<Rightarrow> bytes" where
  "stateObject_GetStateRoot so h = stateRoot (sobjs h so)"

text \<open>Modelled from the spec: \<^verbatim>\<open>rawencode.Encode\<close> and \<^verbatim>\<open>rawencode.Decode\<close>, which are
  not among the sources; they "re-encode the full record" and "decode" it, that is, they
  call the object's own \<^verbatim>\<open>Encode\<close> and \<^verbatim>\<open>Decode\<close>.\<close>

definition rawencode_Encode :: "ext \<Rightarrow> ref \<Rightarrow> heap \<Rightarrow> bytes" where
  "rawencode_Encode X so h = stateObject_Encode X so h"

definition rawencode_Decode :: "ext \<Rightarrow> bytes \<Rightarrow> ref \<Rightarrow> heap \<Rightarrow> error option \<times> heap" where
  "rawencode_Decode X data so h = stateObject_Decode X so data h"

text \<open>\<^verbatim>\<open>Update\<close> ranges over \<^verbatim>\<open>cacheStorage\<close>. Go visits the keys of a map in an order it
  does not specify, so the loop takes the order \<open>ks\<close> of the visit as an argument. Every
  iteration, and the checksum after the loop, calls \<^verbatim>\<open>getStateTree\<close>, which opens a new
  handle. A nil \<^verbatim>\<open>merkleTree\<close> panics at the final \<^verbatim>\<open>Put\<close>.\<close>

fun Update_range :: "ext \<Rightarrow> ref \<Rightarrow> bytes list \<Rightarrow> heap \<Rightarrow> heap" where
  "Update_range X so [] h = h"
| "Update_range X so (k # ks) h =
     (case (case cacheStorage (sobjs h so) of None \<Rightarrow> None | Some cs \<Rightarrow> cs k) of
        None \<Rightarrow> Update_range X so ks h
      | Some v \<Rightarrow>
          (let (t, h1) = stateObject_getStateTree so h
           in Update_range X so ks (Tree_Put t (stateObject_makeStateKey X so k h1) v h1)))"

definition stateObject_Update :: "ext \<Rightarrow> bytes list \<Rightarrow> ref \<Rightarrow> heap \<Rightarrow> error + heap" where
  "stateObject_Update X ks so h =
     (let h1 = Update_range X so ks h;
          (t, h2) = stateObject_getStateTree so h1;
          sr = Tree_Checksum X t h2;
          h3 = upd_obj so (\<lambda>obj. obj\<lparr>stateRoot := Bytes2Hash X sr\<rparr>) h2;
          objRaw = rawencode_Encode X so h3;
          hash = SHA256 X (address (sobjs h3 so))
      in case merkleTree (sobjs h3 so) of
           None \<Rightarrow> Inl NilDeref
         | Some mt \<Rightarrow> Inr (Tree_Put mt hash objRaw h3))"

section \<open>StateDB\<close>

definition NewStateDB :: "ref option \<Rightarrow> bytes \<Rightarrow> heap \<Rightarrow> ref \<times> heap" where
  "NewStateDB d r h =
     (let (t, h1) = NewTree d r h
      in new_StateDB_ptr \<lparr>root = r, treeDB = d, st_merkleTree = t, objs = Map.empty\<rparr> h1)"

definition StateDB_GetStateObj :: "ext \<Rightarrow> ref \<Rightarrow> bytes \<Rightarrow> heap \<Rightarrow> ref option \<times> heap" where
  "StateDB_GetStateObj X st addr h =
     (case objs (sdbs h st) addr of
        Some so \<Rightarrow> (Some so, h)
      | None \<Rightarrow>
          (case Tree_Get (st_merkleTree (sdbs h st)) (SHA256 X addr) h of
             None \<Rightarrow> (None, h)
           | Some val \<Rightarrow>
               (let (obj, h1) = new_stateObject (zero_stateObject X) h
                in case rawencode_Decode X val obj h1 of
                     (Some err, h2) \<Rightarrow> (None, h2)
                   | (None, h2) \<Rightarrow>
                       (let h3 = upd_obj obj (\<lambda>ob. ob\<lparr>merkleTree := Some (st_merkleTree (sdbs h2 st))\<rparr>) h2;
                            h4 = upd_sdb st (\<lambda>s. s\<lparr>objs := (objs s)(addr \<mapsto> obj)\<rparr>) h3
                        in (Some obj, h4)))))"

definition StateDB_HashAccount :: "ext \<Rightarrow> ref \<Rightarrow> bytes \<Rightarrow> heap \<Rightarrow> bool \<times> heap" where
  "StateDB_HashAccount X st addr h =
     (let (obj, h1) = StateDB_GetStateObj X st addr h in (obj \<noteq> None, h1))"

definition StateDB_GetBalance :: "ext \<Rightarrow> ref \<Rightarrow> bytes \<Rightarrow> heap \<Rightarrow> IntPtr \<times> heap" where
  "StateDB_GetBalance X st addr h =
     (let (obj, h1) = StateDB_GetStateObj X st addr h
      in case obj of
           Some so \<Rightarrow>
             (case balance (sobjs h1 so) of
                None \<Rightarrow> (zeroBigN, h1)
              | Some p \<Rightarrow> (p, h1))
         | None \<Rightarrow> (zeroBigN, h1))"


definition StateDB_newStateObj :: "ext \<Rightarrow> ref \<Rightarrow> bytes \<Rightarrow> heap \<Rightarrow> ref \<times> heap" where
  "StateDB_newStateObj X st addr h =
     (let (obj, h1) = NewStateObj addr (Some (st_merkleTree (sdbs h st))) (treeDB (sdbs h st)) X h;
          h2 = upd_sdb st (\<lambda>s. s\<lparr>objs := (objs s)(address (sobjs h1 obj) \<mapsto> obj)\<rparr>) h1
      in (obj, h2))"

definition StateDB_CreateAccount :: "ext \<Rightarrow> ref \<Rightarrow> bytes \<Rightarrow> heap \<Rightarrow> heap" where
  "StateDB_CreateAccount X st addr h =
     (let (old, h1) = StateDB_GetStateObj X st addr h;
          (add, h2) = StateDB_newStateObj X st addr h1
      in case old of
           None \<Rightarrow> h2
         | Some old_so \<Rightarrow> upd_obj add (\<lambda>obj. obj\<lparr>balance := balance (sobjs h2 old_so)\<rparr>) h2)"

definition StateDB_GetOrNewStateObj :: "ext \<Rightarrow> ref \<Rightarrow> bytes \<Rightarrow> heap \<Rightarrow> ref option \<times> heap" where
  "StateDB_GetOrNewStateObj X st addr h =
     (let (stateObj, h1) = StateDB_GetStateObj X st addr h
      in case stateObj of
           None \<Rightarrow> (let (obj, h2) = StateDB_newStateObj X st addr h1 in (Some obj, h2))
         | Some so \<Rightarrow> (Some so, h1))"

definition StateDB_GetStateRoot :: "ext \<Rightarrow> ref \<Rightarrow> bytes \<Rightarrow> heap \<Rightarrow> bytes \<times> heap" where
  "StateDB_GetStateRoot X st addr h =
     (let (obj, h1) = StateDB_GetOrNewStateObj X st addr h
      in case obj of
           Some so \<Rightarrow> (stateObject_GetStateRoot so h1, h1)
         | None \<Rightarrow> (HashZ, h1))"

definition StateDB_AddBalance :: "ext \<Rightarrow> ref \<Rightarrow> bytes \<Rightarrow> IntPtr option \<Rightarrow> heap \<Rightarrow> heap" where
  "StateDB_AddBalance X st addr val h =
     (let (obj, h1) = StateDB_GetOrNewStateObj X st addr h
      in case obj of Some so \<Rightarrow> stateObject_AddBalance so val h1 | None \<Rightarrow> h1)"

definition StateDB_GetNonce :: "ext \<Rightarrow> ref \<Rightarrow> bytes \<Rightarrow> heap \<Rightarrow> 64 word \<times> heap" where
  "StateDB_GetNonce X st addr h =
     (let (obj, h1) = StateDB_GetStateObj X st addr h
      in case obj of Some so \<Rightarrow> (nonce (sobjs h1 so), h1) | None \<Rightarrow> (0, h1))"

definition StateDB_SubBalance :: "ext \<Rightarrow> ref \<Rightarrow> bytes \<Rightarrow> IntPtr option \<Rightarrow> heap \<Rightarrow> heap" where
  "StateDB_SubBalance X st addr amount h =
     (let (obj, h1) = StateDB_GetOrNewStateObj X st addr h
      in case obj of Some so \<Rightarrow> stateObject_SubBalance so amount h1 | None \<Rightarrow> h1)"


definition StateDB_SetNonce :: "ext \<Rightarrow> ref \<Rightarrow> bytes \<Rightarrow> 64 word \<Rightarrow> heap \<Rightarrow> heap" where
  "StateDB_SetNonce X st addr n h =
     (let (obj, h1) = StateDB_GetOrNewStateObj X st addr h
      in case obj of Some so \<Rightarrow> stateObject_SetNonce so n h1 | None \<Rightarrow> h1)"





text \<open>The body of \<^verbatim>\<open>StateDB.SetState\<close> is commented out; \<^verbatim>\<open>StateDB.GetState\<close> returns
  \<^verbatim>\<open>common.Hash{}\<close>.\<close>

definition StateDB_SetState :: "ref \<Rightarrow> bytes \<Rightarrow> bytes \<Rightarrow> bytes \<Rightarrow> heap \<Rightarrow> heap" where
  "StateDB_SetState st addr key val h = h"

definition StateDB_GetState :: "ref \<Rightarrow> bytes \<Rightarrow> bytes \<Rightarrow> heap \<Rightarrow> bytes" where
  "StateDB_GetState st addr hash h = HashZ"

definition StateDB_Root :: "ext \<Rightarrow> ref \<Rightarrow> heap \<Rightarrow> bytes" where
  "StateDB_Root X st h = Tree_Checksum X (st_merkleTree (sdbs h st)) h"

text \<open>\<^verbatim>\<open>UpdateAll\<close> ranges over \<^verbatim>\<open>st.objs\<close>; the visit is a list of the addresses in the
  order Go takes them, each with the order in which that object's \<^verbatim>\<open>Update\<close> visits its
  own storage keys.\<close>

fun StateDB_UpdateAll :: "ext \<Rightarrow> (bytes \<times> bytes list) list \<Rightarrow> ref \<Rightarrow> heap \<Rightarrow> error + heap" where
  "StateDB_UpdateAll X [] st h = Inr h"
| "StateDB_UpdateAll X ((a, ks) # vs) st h =
     (case objs (sdbs h st) a of
        None \<Rightarrow> StateDB_UpdateAll X vs st h
      | Some v \<Rightarrow>
          (case stateObject_Update X ks v h of
             Inl e \<Rightarrow> Inl e
           | Inr h1 \<Rightarrow> StateDB_UpdateAll X vs st h1))"



definition StateDB_AddressInAccessList :: "ref \<Rightarrow> bytes \<Rightarrow> heap \<Rightarrow> bool" where
  "StateDB_AddressInAccessList st addr h = True"

definition StateDB_SlotInAccessList :: "ref \<Rightarrow> bytes \<Rightarrow> bytes \<Rightarrow> heap \<Rightarrow> bool \<times> bool" where
  "StateDB_SlotInAccessList st addr slot h = (True, True)"




definition StateDB_SubRefund :: "ref \<Rightarrow> 64 word \<Rightarrow> heap \<Rightarrow> error + heap" where
  "StateDB_SubRefund st gas h = Inr h"

definition StateDB_GetRefund :: "ref \<Rightarrow> heap \<Rightarrow> 64 word" where
  "StateDB_GetRefund st h = 0"

definition StateDB_HasSuicided :: "ref \<Rightarrow> bytes \<Rightarrow> heap \<Rightarrow> bool" where
  "StateDB_HasSuicided st addr h = True"

definition StateDB_Snapshot :: "ref \<Rightarrow> heap \<Rightarrow> int \<times> heap" where
  "StateDB_Snapshot st h = (0, h)"

definition StateDB_RevertToSnapshot :: "ref \<Rightarrow> int \<Rightarrow> heap \<Rightarrow> heap" where
  "StateDB_RevertToSnapshot st i h = h"

definition StateDB_Suicide :: "ref \<Rightarrow> bytes \<Rightarrow> heap \<Rightarrow> bool \<times> heap" where
  "StateDB_Suicide st addr h = (True, h)"

definition StateDB_GetExtra :: "ext \<Rightarrow> ref \<Rightarrow> bytes \<Rightarrow> heap \<Rightarrow> bytes option \<times> heap" where
  "StateDB_GetExtra X st addr h =
     (let (obj, h1) = StateDB_GetOrNewStateObj X st addr h
      in case obj of
           Some so \<Rightarrow> (stateObject_GetExtra so h1, h1)
         | None \<Rightarrow> (None, h1))"

definition StateDB_GetCode :: "ext \<Rightarrow> ref \<Rightarrow> bytes \<Rightarrow> heap \<Rightarrow> bytes option \<times> heap" where
  "StateDB_GetCode X st addr h =
     (let (obj, h1) = StateDB_GetStateObj X st addr h
      in case obj of
           Some so \<Rightarrow> (stateObject_GetCode so h1, h1)
         | None \<Rightarrow> (None, h1))"

section \<open>A test instance\<close>

text \<open>
  An instance of the parameters, used only to run the model on concrete inputs: the hash
  is the identity, the checksum reads the entry under one key \<open>k\<close>, an address prints as
  its bytes, \<open>Bytes2Hash\<close> right-aligns to 32 bytes, and a map is written as
  \<^verbatim>\<open>key=value&\<close> fields in the order of the sorted keys.
\<close>

fun test_fields :: "string \<Rightarrow> string option \<Rightarrow> string \<Rightarrow> (string \<times> string) list" where
  "test_fields [] k acc = []"
| "test_fields (c # s) None acc =
     (if c = CHR ''='' then test_fields s (Some acc) [] else test_fields s None (acc @ [c]))"
| "test_fields (c # s) (Some k) acc =
     (if c = CHR ''&'' then (k, acc) # test_fields s None [] else test_fields s (Some k) (acc @ [c]))"

definition test_ext :: "bytes \<Rightarrow> ext" where
  "test_ext k =
     \<lparr>SHA256 = (\<lambda>b. b),
      Checksum = (\<lambda>m. case m k of None \<Rightarrow> [] | Some v \<Rightarrow> 1 # v),
      Address_String = string_of_bytes,
      StrB58ToAddress = bytes_of_string,
      Address_zero = [],
      Bytes2Hash = (\<lambda>b. replicate (32 - length b) 0 @ drop (length b - 32) b),
      SortAndEncodeMap =
        (\<lambda>m. concat (map (\<lambda>f. case m f of None \<Rightarrow> [] | Some v \<Rightarrow> f @ ''='' @ v @ ''&'')
                        [''address'', ''balance'', ''code'', ''nonce'', ''state_root''])),
      StringDecodeMap = (\<lambda>s. if s = [] then None else Some (map_of (test_fields s None []))),
      Keccak256Hash = (\<lambda>b. b)\<rparr>"

text \<open>The state after \<^verbatim>\<open>st := NewStateDB(nil, nil); st.AddBalance(A, 50); st.SetNonce(A, 7)\<close>
  for the address \<open>A\<close> with the single byte 65: \<open>st\<close> is the StateDB 0 and the account is
  the object 0.\<close>

definition h_ex :: heap where
  "h_ex =
     (let (st, h1) = NewStateDB None [] (heap0 (test_ext []));
          (fifty, h2) = new_Int 50 h1;
          h3 = StateDB_AddBalance (test_ext []) st [65] (Some fifty) h2
      in StateDB_SetNonce (test_ext []) st [65] 7 h3)"

text \<open>The state after \<^verbatim>\<open>st := NewStateDB(nil, nil); st.GetOrNewStateObj(A)\<close> and the
  allocation of the integer 5 (\<open>NewInt 0\<close>): the object 0 has a nil balance.\<close>

definition h_nil :: heap where
  "h_nil =
     (let (st, h1) = NewStateDB None [] (heap0 (test_ext []));
          (obj, h2) = StateDB_GetOrNewStateObj (test_ext []) st [65] h1
      in snd (new_Int 5 h2))"

section \<open>Sequences of calls\<close>








text \<open>The storage root that \<^verbatim>\<open>Update\<close> stores in an object: the checksum of the
  sub-tree as \<^verbatim>\<open>getStateTree\<close> opens it.\<close>

definition opened_root :: "ext \<Rightarrow> stateObject \<Rightarrow> heap \<Rightarrow> bytes" where
  "opened_root X obj h = Bytes2Hash X (Checksum X (version_at h (db obj) (stateRoot obj)))"

text \<open>What \<^verbatim>\<open>UpdateAll\<close> keeps true from one object to the next, for a StateDB \<open>st\<close> with
  the fields \<open>S\<close> and \<open>n\<close> objects allocated: every cached pointer is an allocated object
  bound to an allocated tree, and no cached object other than \<open>new\<close> that is bound to the
  tree of \<open>st\<close> writes its record under \<open>key\<close>.\<close>

definition flush_inv :: "ext \<Rightarrow> ref \<Rightarrow> StateDB \<Rightarrow> nat \<Rightarrow> ref \<Rightarrow> bytes \<Rightarrow> heap \<Rightarrow> bool" where
  "flush_inv X st S n new key h \<longleftrightarrow>
     sdbs h st = S \<and> sobj_count h = n \<and> st_merkleTree S < tree_count h \<and>
     (\<forall>a r. objs S a = Some r \<longrightarrow>
        r < n \<and> (\<exists>t. merkleTree (sobjs h r) = Some t \<and> t < tree_count h)) \<and>
     (\<forall>a r. objs S a = Some r \<longrightarrow> r \<noteq> new \<longrightarrow>
        merkleTree (sobjs h r) = Some (st_merkleTree S) \<longrightarrow>
        SHA256 X (address (sobjs h r)) \<noteq> key)"






section \<open>Properties of the codecs\<close>

lemmas heap_ops =
  new_Int_def new_stateObject_def new_Tree_def new_StateDB_ptr_def upd_obj_def upd_sdb_def

lemma string_of_bytes_of_string: "string_of_bytes (bytes_of_string s) = s"
proof -
  have "char_of (unat (of_nat (of_char c :: nat) :: 8 word)) = c" for c :: char
  proof -
    have "(of_char c :: nat) < 256" by simp
    then have "unat (of_nat (of_char c :: nat) :: 8 word) = of_char c"
      by (simp add: unat_of_nat)
    then show ?thesis by simp
  qed
  then show ?thesis
    by (simp add: string_of_bytes_def bytes_of_string_def comp_def)
qed

lemma fromHexChar_hextable: "n < 16 \<Longrightarrow> fromHexChar (hextable ! n) = Some n"
proof -
  assume "n < 16"
  then have "n \<in> set [0..<16]" by simp
  moreover have "list_all (\<lambda>n. fromHexChar (hextable ! n) = Some n) [0..<16]"
    by code_simp
  ultimately show ?thesis
    unfolding list_all_iff by blast
qed

lemma hex_roundtrip: "hex_DecodeString (hex_EncodeToString bs) = Some bs"
proof (induction bs)
  case Nil
  show ?case by simp
next
  case (Cons b bs)
  have "unat b < 256" using unsigned_less [of b, where ?'a = nat] by simp
  then have hi: "unat b div 16 < 16" by simp
  have lo: "unat b mod 16 < 16" by simp
  show ?case
    by (simp add: fromHexChar_hextable [OF hi] fromHexChar_hextable [OF lo] Cons.IH)
qed

lemma digit_val_digit_char: "d < 10 \<Longrightarrow> digit_val (digit_char d) = Some d"
proof -
  assume "d < 10"
  then have "d \<in> set [0..<10]" by simp
  moreover have "list_all (\<lambda>d. digit_val (digit_char d) = Some d) [0..<10]"
    by code_simp
  ultimately show ?thesis
    unfolding list_all_iff by blast
qed

lemma digit_char_not_sign: "d < 10 \<Longrightarrow> digit_char d \<noteq> CHR ''-'' \<and> digit_char d \<noteq> CHR ''+''"
proof -
  assume "d < 10"
  then have "d \<in> set [0..<10]" by simp
  moreover have "list_all (\<lambda>d. digit_char d \<noteq> CHR ''-'' \<and> digit_char d \<noteq> CHR ''+'') [0..<10]"
    by code_simp
  ultimately show ?thesis
    unfolding list_all_iff by blast
qed

lemma scan_digits_append:
  "scan_digits (xs @ ys) acc =
     (case scan_digits xs acc of None \<Rightarrow> None | Some a \<Rightarrow> scan_digits ys a)"
  by (induction xs arbitrary: acc) (simp_all split: option.splits)

lemma scan_digits_nat_Text: "scan_digits (nat_Text n) 0 = Some n"
proof (induction n rule: nat_Text.induct)
  case (1 n)
  show ?case
  proof (cases "n < 10")
    case True
    then show ?thesis
      by (simp add: nat_Text.simps [of n] digit_val_digit_char)
  next
    case False
    then have "scan_digits (nat_Text (n div 10)) 0 = Some (n div 10)"
      using "1.IH" by simp
    then show ?thesis using False
      by (simp add: nat_Text.simps [of n] scan_digits_append digit_val_digit_char)
  qed
qed

lemma nat_Text_nonempty: "nat_Text n \<noteq> []"
  by (subst nat_Text.simps) simp

lemma hd_nat_Text_digit: "\<exists>d<10. \<exists>r. nat_Text n = digit_char d # r"
proof (induction n rule: nat_Text.induct)
  case (1 n)
  show ?case
  proof (cases "n < 10")
    case True
    then show ?thesis by (subst nat_Text.simps) auto
  next
    case False
    then obtain d r where "d < 10" "nat_Text (n div 10) = digit_char d # r"
      using "1.IH" by auto
    then show ?thesis using False
      by (subst nat_Text.simps) auto
  qed
qed

lemma SetString_nat_Text: "Int_SetString (nat_Text n) = Some (int n)"
proof -
  obtain d r where d: "d < 10" and eq: "nat_Text n = digit_char d # r"
    using hd_nat_Text_digit by blast
  have "scan_digits (digit_char d # r) 0 = Some n"
    using scan_digits_nat_Text [of n] eq by simp
  then show ?thesis
    using digit_char_not_sign [OF d] by (simp add: Int_SetString_def eq)
qed

lemma SetString_Text: "Int_SetString (Int_Text i) = Some i"
proof (cases "i < 0")
  case True
  then show ?thesis
    by (simp add: Int_Text_def Int_SetString_def nat_Text_nonempty scan_digits_nat_Text)
next
  case False
  then show ?thesis
    by (simp add: Int_Text_def SetString_nat_Text)
qed

lemma SetString_nil: "Int_SetString ''<nil>'' = None"
  by (simp add: Int_SetString_def digit_val_def)

lemma Uint64_unat: "Int_Uint64 (int (unat (w :: 64 word))) = w"
  by (simp add: Int_Uint64_def)

lemma Uint64_uint: "Int_Uint64 (uint (w :: 64 word)) = w"
  using Uint64_unat [of w] by simp

lemma objmap_address: "Encode_objmap X obj h ''address'' = Some (Address_String X (address obj))"
  by (simp add: Encode_objmap_def Let_def)

lemma objmap_balance: "Encode_objmap X obj h ''balance'' = Some (big_Text (balance obj) h)"
  by (simp add: Encode_objmap_def Let_def)

lemma objmap_nonce: "Encode_objmap X obj h ''nonce'' = Some (nat_Text (unat (nonce obj)))"
  by (simp add: Encode_objmap_def Let_def)

lemma objmap_code:
  "Encode_objmap X obj h ''code'' = Some (hex_EncodeToString (slice_bytes (code obj)))"
  by (simp add: Encode_objmap_def Let_def)

lemma objmap_state_root:
  "Encode_objmap X obj h ''state_root'' =
     (if stateRoot obj \<noteq> HashZ then Some (hex_EncodeToString (stateRoot obj)) else None)"
  by (simp add: Encode_objmap_def Let_def)

lemma objmap_cong:
  assumes "Address_String X (address a) = Address_String X (address b)"
    and "big_Text (balance a) h = big_Text (balance b) h'"
    and "nonce a = nonce b"
    and "slice_bytes (code a) = slice_bytes (code b)"
    and "stateRoot a = stateRoot b"
  shows "Encode_objmap X a h = Encode_objmap X b h'"
  using assms by (simp add: Encode_objmap_def Let_def)

text \<open>The test states, evaluated.\<close>

lemmas test_eval =
  NewStateDB_def NewTree_def version_at_def heap0_def heap_ops NewStateObj_def zero_stateObject_def
  StateDB_GetOrNewStateObj_def StateDB_GetStateObj_def Tree_Get_def StateDB_newStateObj_def
  StateDB_AddBalance_def StateDB_SetNonce_def stateObject_SetNonce_def stateObject_AddBalance_def
  stateObject_SetBalance_def big_Add_new_def test_ext_def Let_def

lemma h_ex_sdb: "sdbs h_ex 0 = \<lparr>root = [], treeDB = None, st_merkleTree = 0, objs = [[65] \<mapsto> 0]\<rparr>"
  by (simp add: h_ex_def test_eval)

lemma h_ex_obj:
  "sobjs h_ex 0 =
     \<lparr>merkleTree = Some 0, address = [65], balance = Some (NewInt (Suc 0)), nonce = 7,
      extra = None, code = None, stateRoot = HashZ, cacheStorage = Some Map.empty, db = None\<rparr>"
  by (simp add: h_ex_def test_eval)

lemma h_ex_big: "bigs h_ex (NewInt (Suc 0)) = 50"
  by (simp add: h_ex_def test_eval)

lemma h_ex_counts: "sobj_count h_ex = 1 \<and> tree_count h_ex = 1 \<and> sdb_count h_ex = 1"
  by (simp add: h_ex_def test_eval)

lemma h_ex_tree: "trees h_ex 0 = \<lparr>tdb = None, entries = Map.empty\<rparr>"
  by (simp add: h_ex_def test_eval)


lemma h_nil_obj:
  "sobjs h_nil 0 =
     \<lparr>merkleTree = Some 0, address = [65], balance = None, nonce = 0,
      extra = None, code = None, stateRoot = HashZ, cacheStorage = Some Map.empty, db = None\<rparr>"
  by (simp add: h_nil_def test_eval)



lemma char_A: "char_of (65::nat) = CHR ''A''"
  by code_simp

lemma nat_Text_7: "nat_Text 7 = ''7''"
  by code_simp

lemma Int_Text_50: "Int_Text 50 = ''50''"
  by code_simp

lemma h_ex_encoded:
  "SortAndEncodeMap (test_ext []) (Encode_objmap (test_ext []) (sobjs h_ex 0) h_ex) =
     ''address=A&balance=50&code=&nonce=7&''"
  by (simp add: h_ex_obj h_ex_big Encode_objmap_def Let_def test_ext_def big_Text_def Int_Text_50
      nat_Text_7 slice_bytes_def string_of_bytes_def char_A)

lemma h_ex_decoded:
  "StringDecodeMap (test_ext []) ''address=A&balance=50&code=&nonce=7&'' =
     Some (Encode_objmap (test_ext []) (sobjs h_ex 0) h_ex)"
proof -
  have "map_of (test_fields ''address=A&balance=50&code=&nonce=7&'' None []) =
          Encode_objmap (test_ext []) (sobjs h_ex 0) h_ex"
    by (rule ext)
      (simp add: h_ex_obj h_ex_big Encode_objmap_def Let_def test_ext_def big_Text_def Int_Text_50
        nat_Text_7 slice_bytes_def string_of_bytes_def char_A)
  then show ?thesis
    by (simp add: test_ext_def)
qed

section \<open>The account record codec\<close>

text \<open>
  Claim C3. For every stateObject, decoding the bytes that \<^verbatim>\<open>Encode\<close> produced for it into a
  fresh \<^verbatim>\<open>&stateObject{}\<close> succeeds, and encoding the decoded object gives the same bytes
  again: the field order is that of the map writer, balance and nonce travel as base-10
  digits (a nil balance as \<^verbatim>\<open><nil>\<close>, which stays nil), code as hex, and the state root
  only when it differs from \<open>HashZ\<close>. The map writer and reader and the address and hash
  conversions are not among the sources: the theorem assumes that the reader returns the
  field map the writer was given, that the string form of the address survives reading it
  back, and that \<open>Bytes2Hash\<close> leaves the bytes of the state root as they are.
\<close>

theorem Encode_Decode_Encode:
  assumes mapcodec: "StringDecodeMap X (SortAndEncodeMap X (Encode_objmap X (sobjs h so) h)) =
                     Some (Encode_objmap X (sobjs h so) h)"
    and addrcodec: "Address_String X (StrB58ToAddress X (Address_String X (address (sobjs h so)))) =
                    Address_String X (address (sobjs h so))"
    and hashid: "Bytes2Hash X (stateRoot (sobjs h so)) = stateRoot (sobjs h so)"
  shows "(let b = stateObject_Encode X so h;
              (obj, h1) = new_stateObject (zero_stateObject X) h;
              (err, h2) = stateObject_Decode X obj b h1
          in err = None \<and> stateObject_Encode X obj h2 = b)"
proof -
  define r where "r = Encode_objmap X (sobjs h so) h"
  define obj where "obj = sobj_count h"
  define h1 where "h1 = snd (new_stateObject (zero_stateObject X) h)"
  define h2 where "h2 = snd (stateObject_Decode X obj (stateObject_Encode X so h) h1)"
  have dec: "StringDecodeMap X (string_of_bytes (stateObject_Encode X so h)) = Some r"
    by (simp add: stateObject_Encode_def string_of_bytes_of_string mapcodec r_def)
  have r_simps: "r ''address'' = Some (Address_String X (address (sobjs h so)))"
    "r ''balance'' = Some (big_Text (balance (sobjs h so)) h)"
    "r ''nonce'' = Some (nat_Text (unat (nonce (sobjs h so))))"
    "r ''code'' = Some (hex_EncodeToString (slice_bytes (code (sobjs h so))))"
    "r ''state_root'' =
       (if stateRoot (sobjs h so) \<noteq> HashZ
        then Some (hex_EncodeToString (stateRoot (sobjs h so))) else None)"
    by (simp_all add: r_def objmap_address objmap_balance objmap_nonce objmap_code
        objmap_state_root)
  note unfold = h2_def h1_def obj_def stateObject_Decode_def dec r_simps Decode_balance_def
    Decode_nonce_def loadBytesByMapKey_def hex_roundtrip SetString_Text SetString_nat_Text
    SetString_nil big_Text_def heap_ops Let_def zero_stateObject_def
  have same: "Encode_objmap X (sobjs h2 obj) h2 = r"
    unfolding r_def
  proof (rule objmap_cong)
    show "Address_String X (address (sobjs h2 obj)) = Address_String X (address (sobjs h so))"
      by (cases "balance (sobjs h so)") (simp_all add: unfold addrcodec)
    show "big_Text (balance (sobjs h2 obj)) h2 = big_Text (balance (sobjs h so)) h"
      by (cases "balance (sobjs h so)") (simp_all add: unfold)
    show "nonce (sobjs h2 obj) = nonce (sobjs h so)"
      by (cases "balance (sobjs h so)") (simp_all add: unfold Uint64_unat Uint64_uint)
    show "slice_bytes (code (sobjs h2 obj)) = slice_bytes (code (sobjs h so))"
      by (cases "balance (sobjs h so)") (simp_all add: unfold slice_bytes_def)
    show "stateRoot (sobjs h2 obj) = stateRoot (sobjs h so)"
      by (cases "balance (sobjs h so)") (simp_all add: unfold hashid)
  qed
  have err: "fst (stateObject_Decode X obj (stateObject_Encode X so h) h1) = None"
    by (simp add: stateObject_Decode_def dec Let_def)
  have "stateObject_Encode X obj h2 = stateObject_Encode X so h"
    by (simp add: stateObject_Encode_def same) (simp add: r_def)
  then show ?thesis
    using err by (simp add: Let_def split_beta new_stateObject_def obj_def h1_def h2_def)
qed

theorem Encode_Decode_Encode_witness:
  "stateObject_Encode (test_ext []) 0 h_ex = bytes_of_string ''address=A&balance=50&code=&nonce=7&'' \<and>
   (let b = stateObject_Encode (test_ext []) 0 h_ex;
        (obj, h1) = new_stateObject (zero_stateObject (test_ext [])) h_ex;
        (err, h2) = stateObject_Decode (test_ext []) obj b h1
    in err = None \<and> stateObject_Encode (test_ext []) obj h2 = b)"
proof -
  have m: "StringDecodeMap (test_ext [])
             (SortAndEncodeMap (test_ext []) (Encode_objmap (test_ext []) (sobjs h_ex 0) h_ex)) =
           Some (Encode_objmap (test_ext []) (sobjs h_ex 0) h_ex)"
    by (simp only: h_ex_encoded h_ex_decoded)
  have a: "Address_String (test_ext [])
             (StrB58ToAddress (test_ext []) (Address_String (test_ext []) (address (sobjs h_ex 0)))) =
           Address_String (test_ext []) (address (sobjs h_ex 0))"
    by (simp add: test_ext_def string_of_bytes_of_string)
  have s: "Bytes2Hash (test_ext []) (stateRoot (sobjs h_ex 0)) = stateRoot (sobjs h_ex 0)"
    by (simp add: test_ext_def h_ex_obj HashZ_def)
  have e: "stateObject_Encode (test_ext []) 0 h_ex =
             bytes_of_string ''address=A&balance=50&code=&nonce=7&''"
    by (simp only: stateObject_Encode_def h_ex_encoded)
  show ?thesis
    using Encode_Decode_Encode [OF m a s] e by simp
qed

section \<open>Flushing an object\<close>

lemma getStateTree_eq:
  "stateObject_getStateTree so h =
     (tree_count h,
      h\<lparr>trees := (trees h)(tree_count h :=
            \<lparr>tdb = db (sobjs h so), entries = version_at h (db (sobjs h so)) (stateRoot (sobjs h so))\<rparr>),
        tree_count := Suc (tree_count h)\<rparr>)"
  by (simp add: stateObject_getStateTree_def NewTree_def new_Tree_def)

lemma version_at_stores: "stores h' = stores h \<Longrightarrow> version_at h' d r = version_at h d r"
  by (simp add: version_at_def split: option.splits)

lemma Update_range_frame:
  "sobjs (Update_range X so ks h) = sobjs h \<and> sdbs (Update_range X so ks h) = sdbs h \<and>
   bigs (Update_range X so ks h) = bigs h \<and> stores (Update_range X so ks h) = stores h \<and>
   sobj_count (Update_range X so ks h) = sobj_count h \<and>
   sdb_count (Update_range X so ks h) = sdb_count h \<and>
   big_count (Update_range X so ks h) = big_count h \<and>
   tree_count h \<le> tree_count (Update_range X so ks h) \<and>
   (\<forall>t<tree_count h. trees (Update_range X so ks h) t = trees h t)"
proof (induction ks arbitrary: h)
  case Nil
  show ?case by simp
next
  case (Cons k ks)
  show ?case
  proof (cases "case cacheStorage (sobjs h so) of None \<Rightarrow> None | Some cs \<Rightarrow> cs k")
    case None
    then show ?thesis using Cons.IH [of h] by simp
  next
    case (Some v)
    define h1 where "h1 = Tree_Put (tree_count h) (stateObject_makeStateKey X so k (snd (stateObject_getStateTree so h))) v
       (snd (stateObject_getStateTree so h))"
    have step: "Update_range X so (k # ks) h = Update_range X so ks h1"
      using Some by (simp add: h1_def getStateTree_eq)
    have f: "sobjs h1 = sobjs h" "sdbs h1 = sdbs h" "bigs h1 = bigs h" "stores h1 = stores h"
      "sobj_count h1 = sobj_count h" "sdb_count h1 = sdb_count h" "big_count h1 = big_count h"
      "tree_count h1 = Suc (tree_count h)" "\<forall>t<tree_count h. trees h1 t = trees h t"
      by (simp_all add: h1_def getStateTree_eq Tree_Put_def)
    show ?thesis
      unfolding step using Cons.IH [of h1] f by auto
  qed
qed

lemma Encode_objmap_bigs:
  assumes "bigs h' = bigs h"
  shows "Encode_objmap X ob h' = Encode_objmap X ob h"
  by (simp only: Encode_objmap_def big_Text_def assms)

lemma Update_result:
  fixes X :: ext and so :: ref and h :: heap
  assumes mt: "merkleTree (sobjs h so) = Some mt"
  defines "R \<equiv> opened_root X (sobjs h so) h"
  defines "enc \<equiv> bytes_of_string (SortAndEncodeMap X (Encode_objmap X ((sobjs h so)\<lparr>stateRoot := R\<rparr>) h))"
  shows "\<exists>h'. stateObject_Update X ks so h = Inr h' \<and>
           sobjs h' = (sobjs h)(so := (sobjs h so)\<lparr>stateRoot := R\<rparr>) \<and>
           sdbs h' = sdbs h \<and> bigs h' = bigs h \<and> stores h' = stores h \<and>
           sobj_count h' = sobj_count h \<and> sdb_count h' = sdb_count h \<and>
           tree_count h \<le> tree_count h' \<and>
           (\<forall>t<tree_count h. trees h' t =
              (if t = mt
               then (trees h t)\<lparr>entries := (entries (trees h t))(SHA256 X (address (sobjs h so)) \<mapsto> enc)\<rparr>
               else trees h t))"
proof -
  define h1 where "h1 = Update_range X so ks h"
  have F: "sobjs h1 = sobjs h" "sdbs h1 = sdbs h" "bigs h1 = bigs h" "stores h1 = stores h"
    "sobj_count h1 = sobj_count h" "sdb_count h1 = sdb_count h"
    "tree_count h \<le> tree_count h1" "\<forall>t<tree_count h. trees h1 t = trees h t"
    using Update_range_frame [of X so ks h] by (simp_all add: h1_def)
  have va: "version_at h1 (db (sobjs h so)) (stateRoot (sobjs h so)) =
            version_at h (db (sobjs h so)) (stateRoot (sobjs h so))"
    using F(4) by (rule version_at_stores)
  define h2 where "h2 = snd (stateObject_getStateTree so h1)"
  define h3 where "h3 = upd_obj so (\<lambda>obj. obj\<lparr>stateRoot := R\<rparr>) h2"
  have g: "stateObject_getStateTree so h1 = (tree_count h1, h2)"
    by (simp add: h2_def getStateTree_eq)
  have ck: "Tree_Checksum X (tree_count h1) h2 =
            Checksum X (version_at h (db (sobjs h so)) (stateRoot (sobjs h so)))"
    using va by (simp add: Tree_Checksum_def h2_def getStateTree_eq F(1))
  have s3: "sobjs h3 = (sobjs h)(so := (sobjs h so)\<lparr>stateRoot := R\<rparr>)"
    by (simp add: h3_def h2_def getStateTree_eq upd_obj_def F(1))
  have b3: "bigs h3 = bigs h"
    by (simp add: h3_def h2_def getStateTree_eq upd_obj_def F(3))
  have e3: "rawencode_Encode X so h3 = enc"
    by (simp add: rawencode_Encode_def stateObject_Encode_def s3 enc_def
        Encode_objmap_bigs [OF b3])
  have U: "stateObject_Update X ks so h =
             Inr (Tree_Put mt (SHA256 X (address (sobjs h so))) enc h3)"
  proof -
    have "stateObject_Update X ks so h =
            (case merkleTree (sobjs h3 so) of
               None \<Rightarrow> Inl NilDeref
             | Some m \<Rightarrow> Inr (Tree_Put m (SHA256 X (address (sobjs h3 so))) (rawencode_Encode X so h3) h3))"
      unfolding stateObject_Update_def Let_def h1_def [symmetric] g split_conv ck
        h3_def R_def opened_root_def ..
    also have "\<dots> = Inr (Tree_Put mt (SHA256 X (address (sobjs h so))) enc h3)"
      using mt by (simp add: e3 s3)
    finally show ?thesis .
  qed
  have T: "\<forall>t<tree_count h. trees h3 t = trees h t"
    using F(7,8) by (simp add: h3_def h2_def getStateTree_eq upd_obj_def)
  have rest: "sdbs h3 = sdbs h" "stores h3 = stores h" "sobj_count h3 = sobj_count h"
    "sdb_count h3 = sdb_count h" "tree_count h \<le> tree_count h3"
    using F by (simp_all add: h3_def h2_def getStateTree_eq upd_obj_def)
  show ?thesis
    unfolding U using s3 b3 T rest
    by (simp add: Tree_Put_def)
qed

lemma Update_stateRoot_ignores_cache:
  assumes "merkleTree (sobjs h so) = Some mt"
  shows "case stateObject_Update X ks so h of
           Inl e \<Rightarrow> False
         | Inr h' \<Rightarrow> stateRoot (sobjs h' so) = opened_root X (sobjs h so) h \<and>
                     cacheStorage (sobjs h' so) = cacheStorage (sobjs h so)"
  using Update_result [OF assms, of X ks] by auto

text \<open>
  Claim C1. The claim says that \<^verbatim>\<open>Update\<close> writes every buffered entry into the account's
  sub-tree and that the new storage root reflects them. In the code every iteration calls
  \<^verbatim>\<open>so.getStateTree()\<close>, which opens a new handle at the old root, puts one entry into it
  and drops it; the checksum is then taken from yet another new handle. On an object made
  by \<^verbatim>\<open>newStateObj\<close> with \<^verbatim>\<open>SetState(k, v)\<close> buffered, \<^verbatim>\<open>Update\<close> stores the checksum of
  the empty tree as storage root, the same root as without the write; the sub-tree opened
  afterwards has no entry, and the value is found only in the object's own cache.
\<close>

theorem Update_drops_buffered_storage:
  "(let (st, h1) = NewStateDB (Some 0) [] (heap0 X);
        (so, h2) = StateDB_newStateObj X st [1] h1
    in case stateObject_SetState so [7] [9] h2 of
         Inl e \<Rightarrow> False
       | Inr h3 \<Rightarrow>
           (case stateObject_Update X [[7]] so h3 of
              Inl e \<Rightarrow> False
            | Inr h4 \<Rightarrow>
                (let (t, h5) = stateObject_getStateTree so h4
                 in cacheStorage (sobjs h3 so) = Some [[7] \<mapsto> [9]] \<and>
                    stateRoot (sobjs h4 so) = Bytes2Hash X (Checksum X Map.empty) \<and>
                    entries (trees h5 t) = Map.empty \<and>
                    Tree_Get t (stateObject_makeStateKey X so [7] h5) h5 = None \<and>
                    (case stateObject_Update X [] so h2 of
                       Inl e \<Rightarrow> False
                     | Inr h4' \<Rightarrow> stateRoot (sobjs h4' so) = stateRoot (sobjs h4 so)))))"
proof -
  define h1 where "h1 = snd (NewStateDB (Some 0) [] (heap0 X))"
  define h2 where "h2 = snd (StateDB_newStateObj X 0 [1] (snd (NewStateDB (Some 0) [] (heap0 X))))"
  have n: "NewStateDB (Some 0) [] (heap0 X) = (0, h1)"
    by (simp add: h1_def NewStateDB_def NewTree_def heap0_def new_Tree_def new_StateDB_ptr_def)
  have o: "StateDB_newStateObj X 0 [1] h1 = (0, h2)"
    by (simp add: h1_def h2_def StateDB_newStateObj_def NewStateObj_def new_stateObject_def Let_def
        NewStateDB_def NewTree_def heap0_def new_Tree_def new_StateDB_ptr_def)
  have ob: "sobjs h2 0 =
              \<lparr>merkleTree = Some 0, address = [1], balance = None, nonce = 0, extra = None,
               code = None, stateRoot = HashZ, cacheStorage = Some Map.empty, db = Some 0\<rparr>"
    by (simp add: h2_def StateDB_newStateObj_def NewStateObj_def new_stateObject_def Let_def
        NewStateDB_def NewTree_def heap0_def new_Tree_def new_StateDB_ptr_def upd_sdb_def
        zero_stateObject_def)
  have st: "stores h2 = (\<lambda>d. Map.empty)"
    by (simp add: h2_def StateDB_newStateObj_def NewStateObj_def new_stateObject_def Let_def
        NewStateDB_def NewTree_def heap0_def new_Tree_def new_StateDB_ptr_def upd_sdb_def)
  define h3 where "h3 = upd_obj 0 (\<lambda>obj. obj\<lparr>cacheStorage := Some [[7] \<mapsto> [9]]\<rparr>) h2"
  have s: "stateObject_SetState 0 [7] [9] h2 = Inr h3"
    by (simp add: stateObject_SetState_def ob h3_def)
  have ob3: "sobjs h3 0 = (sobjs h2 0)\<lparr>cacheStorage := Some [[7] \<mapsto> [9]]\<rparr>"
    and st3: "stores h3 = stores h2"
    by (simp_all add: h3_def upd_obj_def)
  have m3: "merkleTree (sobjs h3 0) = Some 0" and m2: "merkleTree (sobjs h2 0) = Some 0"
    by (simp_all add: ob3 ob)
  have r3: "opened_root X (sobjs h3 0) h3 = Bytes2Hash X (Checksum X Map.empty)"
    by (simp add: opened_root_def version_at_def ob3 ob st3 st)
  have r2: "opened_root X (sobjs h2 0) h2 = Bytes2Hash X (Checksum X Map.empty)"
    by (simp add: opened_root_def version_at_def ob st)
  obtain h4 where u: "stateObject_Update X [[7]] 0 h3 = Inr h4"
    and s4: "sobjs h4 = (sobjs h3)(0 := (sobjs h3 0)\<lparr>stateRoot := opened_root X (sobjs h3 0) h3\<rparr>)"
    and st4: "stores h4 = stores h3"
    using Update_result [OF m3, of X "[[7]]"] by blast
  obtain h4' where u': "stateObject_Update X [] 0 h2 = Inr h4'"
    and s4': "sobjs h4' = (sobjs h2)(0 := (sobjs h2 0)\<lparr>stateRoot := opened_root X (sobjs h2 0) h2\<rparr>)"
    using Update_result [OF m2, of X "[]"] by blast
  define h5 where "h5 = snd (stateObject_getStateTree 0 h4)"
  have g: "stateObject_getStateTree 0 h4 = (tree_count h4, h5)"
    by (simp add: h5_def getStateTree_eq)
  have e5: "entries (trees h5 (tree_count h4)) = Map.empty"
    by (simp add: h5_def getStateTree_eq version_at_def s4 ob3 ob st4 st3 st)
  show ?thesis
    unfolding n o Let_def split_conv s sum.case u u' g
    by (simp add: ob3 s4 s4' r3 [unfolded ob3] r2 e5 Tree_Get_def)
qed

section \<open>Balances and the shared zero\<close>








text \<open>
  Claim C2. The claim says that the stored balance is never negative and that
  \<^verbatim>\<open>SubBalance\<close> with an amount above the balance leaves the balance unchanged. The code
  computes \<^verbatim>\<open>oldBalance.Sub(oldBalance, val)\<close>, which overwrites the integer that
  \<^verbatim>\<open>so.balance\<close> points to before \<^verbatim>\<open>SetBalance\<close> rejects the negative result: on an
  object created by \<^verbatim>\<open>NewStateObj\<close>, \<^verbatim>\<open>AddBalance(5)\<close> gives the balance 5 and
  \<^verbatim>\<open>SubBalance(10)\<close> then leaves \<^verbatim>\<open>GetBalance()\<close> at -5.
\<close>

theorem SubBalance_drives_balance_negative:
  "(let (so, h1) = NewStateObj [1] None None X (heap0 X);
        (five, h2) = new_Int 5 h1;
        (ten, h3) = new_Int 10 h2;
        h4 = stateObject_AddBalance so (Some five) h3;
        h5 = stateObject_SubBalance so (Some ten) h4
    in map_option (bigs h4) (stateObject_GetBalance so h4) = Some 5 \<and>
       map_option (bigs h5) (stateObject_GetBalance so h5) = Some (- 5))"
  by (simp add: Let_def NewStateObj_def heap0_def heap_ops stateObject_AddBalance_def
      stateObject_SubBalance_def stateObject_SetBalance_def big_Add_new_def big_Sub_def
      stateObject_GetBalance_def zero_stateObject_def)

text \<open>The same in general: whenever the amount exceeds a non-nil balance, the subtraction
  has already happened in place when \<^verbatim>\<open>SetBalance\<close> declines to store the result.\<close>

lemma SubBalance_in_place:
  assumes "balance (sobjs h so) = Some q" and "0 < bigs h p" and "bigs h q < bigs h p"
  shows "balance (sobjs (stateObject_SubBalance so (Some p) h) so) = Some q \<and>
         bigs (stateObject_SubBalance so (Some p) h) q = bigs h q - bigs h p"
  using assms
  by (simp add: stateObject_SubBalance_def big_Sub_def stateObject_SetBalance_def Let_def)

text \<open>The guards that the claim describes correctly: nil and non-positive arguments, and
  a negative argument of \<^verbatim>\<open>SetBalance\<close>, change nothing.\<close>

lemma balance_guards:
  "stateObject_AddBalance so None h = h"
  "stateObject_SubBalance so None h = h"
  "stateObject_SetBalance so None h = h"
  "bigs h p \<le> 0 \<Longrightarrow> stateObject_AddBalance so (Some p) h = h"
  "bigs h p \<le> 0 \<Longrightarrow> stateObject_SubBalance so (Some p) h = h"
  "bigs h p < 0 \<Longrightarrow> stateObject_SetBalance so (Some p) h = h"
  by (simp_all add: stateObject_AddBalance_def stateObject_SubBalance_def
      stateObject_SetBalance_def sgn_if)



lemma SetBalance_bigs: "bigs (stateObject_SetBalance so val h) = bigs h"
  by (simp add: stateObject_SetBalance_def upd_obj_def split: option.splits)


lemma SubBalance_obj_zeroBigN_le:
  "bigs (stateObject_SubBalance so val h) zeroBigN \<le> bigs h zeroBigN"
  by (simp add: stateObject_SubBalance_def big_Sub_def Let_def SetBalance_bigs sgn_if
      split: option.splits)




















text \<open>
  Claim C7. The claim says that \<^verbatim>\<open>GetBalance\<close> of an address absent from the cache and
  from the tree returns zero. The accessor returns the shared pointer \<open>zeroBigN\<close>, and
  \<^verbatim>\<open>SubBalance\<close> on an account with a nil balance subtracts from that integer in place:
  after \<^verbatim>\<open>st.SubBalance(a1, 5)\<close> on a new StateDB, the address \<open>a2\<close> is in neither the cache
  nor the tree and \<^verbatim>\<open>st.GetBalance(a2)\<close> reads -5. The nonce and code accessors return
  0 and nil there.
\<close>

theorem GetBalance_absent_after_SubBalance:
  "(let (st, h1) = NewStateDB None [] (heap0 X);
        (five, h2) = new_Int 5 h1;
        h3 = StateDB_SubBalance X st [1] (Some five) h2;
        (p, h4) = StateDB_GetBalance X st [2] h3
    in objs (sdbs h3 st) [2] = None \<and>
       Tree_Get (st_merkleTree (sdbs h3 st)) (SHA256 X [2]) h3 = None \<and>
       bigs h4 p = - 5 \<and>
       fst (StateDB_GetNonce X st [2] h3) = 0 \<and>
       fst (StateDB_GetCode X st [2] h3) = None)"
  by (simp add: Let_def NewStateDB_def NewTree_def version_at_def heap0_def heap_ops
      StateDB_SubBalance_def StateDB_GetOrNewStateObj_def StateDB_GetStateObj_def Tree_Get_def
      StateDB_newStateObj_def NewStateObj_def zero_stateObject_def stateObject_SubBalance_def
      big_Sub_def stateObject_SetBalance_def StateDB_GetBalance_def StateDB_GetNonce_def
      StateDB_GetCode_def)

text \<open>What does hold for an absent address: no accessor fails, the nonce is 0, the code is
  nil, and the balance is whatever \<open>zeroBigN\<close> holds at that moment.\<close>

lemma absent_accessors:
  assumes "objs (sdbs h st) addr = None"
    and "Tree_Get (st_merkleTree (sdbs h st)) (SHA256 X addr) h = None"
  shows "StateDB_GetBalance X st addr h = (zeroBigN, h)"
    and "StateDB_GetNonce X st addr h = (0, h)"
    and "StateDB_GetCode X st addr h = (None, h)"
  using assms
  by (simp_all add: StateDB_GetBalance_def StateDB_GetNonce_def StateDB_GetCode_def
      StateDB_GetStateObj_def)

section \<open>Looking accounts up and creating them\<close>

lemma GetStateObj_cached:
  "objs (sdbs h st) addr = Some so \<Longrightarrow> StateDB_GetStateObj X st addr h = (Some so, h)"
  by (simp add: StateDB_GetStateObj_def)

lemma GetStateObj_absent:
  "objs (sdbs h st) addr = None \<Longrightarrow>
   Tree_Get (st_merkleTree (sdbs h st)) (SHA256 X addr) h = None \<Longrightarrow>
   StateDB_GetStateObj X st addr h = (None, h)"
  by (simp add: StateDB_GetStateObj_def)

lemma Decode_balance_frame:
  "sdbs (Decode_balance so r h) = sdbs h \<and> sobj_count (Decode_balance so r h) = sobj_count h \<and>
   trees (Decode_balance so r h) = trees h \<and> tree_count (Decode_balance so r h) = tree_count h \<and>
   stores (Decode_balance so r h) = stores h \<and> sdb_count (Decode_balance so r h) = sdb_count h \<and>
   (\<forall>q. q \<noteq> so \<longrightarrow> sobjs (Decode_balance so r h) q = sobjs h q)"
  by (simp add: Decode_balance_def heap_ops split: option.splits)

lemma Decode_nonce_frame:
  "sdbs (Decode_nonce so r h) = sdbs h \<and> sobj_count (Decode_nonce so r h) = sobj_count h \<and>
   trees (Decode_nonce so r h) = trees h \<and> tree_count (Decode_nonce so r h) = tree_count h \<and>
   stores (Decode_nonce so r h) = stores h \<and> sdb_count (Decode_nonce so r h) = sdb_count h \<and>
   (\<forall>q. q \<noteq> so \<longrightarrow> sobjs (Decode_nonce so r h) q = sobjs h q)"
  by (simp add: Decode_nonce_def heap_ops split: option.splits)

lemma Decode_frame:
  "fst (stateObject_Decode X so data h) = None \<and>
   sdbs (snd (stateObject_Decode X so data h)) = sdbs h \<and>
   sobj_count (snd (stateObject_Decode X so data h)) = sobj_count h \<and>
   trees (snd (stateObject_Decode X so data h)) = trees h \<and>
   tree_count (snd (stateObject_Decode X so data h)) = tree_count h \<and>
   stores (snd (stateObject_Decode X so data h)) = stores h \<and>
   sdb_count (snd (stateObject_Decode X so data h)) = sdb_count h \<and>
   (\<forall>q. q \<noteq> so \<longrightarrow> sobjs (snd (stateObject_Decode X so data h)) q = sobjs h q)"
  by (simp add: stateObject_Decode_def Let_def Decode_balance_frame Decode_nonce_frame upd_obj_def
      split: option.splits)

lemma GetStateObj_loaded:
  assumes "objs (sdbs h st) addr = None"
    and "Tree_Get (st_merkleTree (sdbs h st)) (SHA256 X addr) h = Some val"
  shows "fst (StateDB_GetStateObj X st addr h) = Some (sobj_count h) \<and>
         sdbs (snd (StateDB_GetStateObj X st addr h)) =
           (sdbs h)(st := (sdbs h st)\<lparr>objs := (objs (sdbs h st))(addr \<mapsto> sobj_count h)\<rparr>) \<and>
         sobj_count (snd (StateDB_GetStateObj X st addr h)) = Suc (sobj_count h) \<and>
         trees (snd (StateDB_GetStateObj X st addr h)) = trees h \<and>
         tree_count (snd (StateDB_GetStateObj X st addr h)) = tree_count h \<and>
         stores (snd (StateDB_GetStateObj X st addr h)) = stores h \<and>
         sdb_count (snd (StateDB_GetStateObj X st addr h)) = sdb_count h \<and>
         (\<forall>q. q \<noteq> sobj_count h \<longrightarrow> sobjs (snd (StateDB_GetStateObj X st addr h)) q = sobjs h q)"
proof -
  define h1 where "h1 = snd (new_stateObject (zero_stateObject X) h)"
  define h2 where "h2 = snd (stateObject_Decode X (sobj_count h) val h1)"
  have d: "stateObject_Decode X (sobj_count h) val h1 = (None, h2)"
    using Decode_frame [of X "sobj_count h" val h1] by (simp add: h2_def prod_eq_iff)
  have f: "sdbs h2 = sdbs h" "sobj_count h2 = Suc (sobj_count h)" "trees h2 = trees h"
    "tree_count h2 = tree_count h" "stores h2 = stores h" "sdb_count h2 = sdb_count h"
    "\<forall>q. q \<noteq> sobj_count h \<longrightarrow> sobjs h2 q = sobjs h q"
    using Decode_frame [of X "sobj_count h" val h1]
    by (simp_all add: h2_def h1_def new_stateObject_def)
  have "StateDB_GetStateObj X st addr h =
          (Some (sobj_count h),
           upd_sdb st (\<lambda>s. s\<lparr>objs := (objs s)(addr \<mapsto> sobj_count h)\<rparr>)
             (upd_obj (sobj_count h)
                (\<lambda>ob. ob\<lparr>merkleTree := Some (st_merkleTree (sdbs h2 st))\<rparr>) h2))"
    using assms d
    by (simp add: StateDB_GetStateObj_def rawencode_Decode_def Let_def new_stateObject_def h1_def)
  then show ?thesis
    using f by (simp add: upd_sdb_def upd_obj_def)
qed

text \<open>
  Claim C6. \<^verbatim>\<open>CreateAccount(addr)\<close> installs under \<open>addr\<close> a newly allocated object whose
  nonce is 0, whose code and extra are nil, whose storage cache is empty and whose storage
  root is zero; its balance is the balance pointer of the object that \<^verbatim>\<open>GetStateObj\<close>
  found for \<open>addr\<close> (in the cache or decoded from the tree), and nil when it found none.
  The cached pointer for \<open>addr\<close>, if there is one, is assumed to be an allocated object.
\<close>

theorem CreateAccount_fresh_object:
  assumes wf: "\<forall>r. objs (sdbs h st) addr = Some r \<longrightarrow> r < sobj_count h"
  shows "(let (old, h1) = StateDB_GetStateObj X st addr h;
              h' = StateDB_CreateAccount X st addr h;
              add = sobj_count h1
          in objs (sdbs h' st) addr = Some add \<and>
             sobj_count h \<le> add \<and>
             sobjs h' add =
               \<lparr>merkleTree = Some (st_merkleTree (sdbs h st)), address = addr,
                balance = (case old of None \<Rightarrow> None | Some ob \<Rightarrow> balance (sobjs h1 ob)),
                nonce = 0, extra = None, code = None, stateRoot = HashZ,
                cacheStorage = Some Map.empty, db = treeDB (sdbs h st)\<rparr> \<and>
             bigs h' = bigs h1)"
proof (cases "objs (sdbs h st) addr")
  case (Some so)
  then have "so < sobj_count h" using wf by simp
  then show ?thesis
    using Some
    by (simp add: GetStateObj_cached StateDB_CreateAccount_def StateDB_newStateObj_def
        NewStateObj_def Let_def heap_ops zero_stateObject_def)
next
  case None
  show ?thesis
  proof (cases "Tree_Get (st_merkleTree (sdbs h st)) (SHA256 X addr) h")
    case N: None
    show ?thesis
      using None N
      by (simp add: GetStateObj_absent StateDB_CreateAccount_def StateDB_newStateObj_def
          NewStateObj_def Let_def heap_ops zero_stateObject_def)
  next
    case (Some val)
    note L = GetStateObj_loaded [OF None Some]
    obtain old h1 where g: "StateDB_GetStateObj X st addr h = (old, h1)" by fastforce
    have old: "old = Some (sobj_count h)" and
      h1: "sdbs h1 = (sdbs h)(st := (sdbs h st)\<lparr>objs := (objs (sdbs h st))(addr \<mapsto> sobj_count h)\<rparr>)"
      "sobj_count h1 = Suc (sobj_count h)"
      using L by (simp_all add: g)
    show ?thesis
      using old h1
      by (simp add: g StateDB_CreateAccount_def StateDB_newStateObj_def NewStateObj_def
          Let_def heap_ops zero_stateObject_def)
  qed
qed

theorem CreateAccount_fresh_object_witness:
  "(let h' = StateDB_CreateAccount (test_ext []) 0 [65] h_ex
    in map_option (bigs h_ex) (balance (sobjs h_ex 0)) = Some 50 \<and> nonce (sobjs h_ex 0) = 7 \<and>
       objs (sdbs h' 0) [65] = Some 1 \<and>
       map_option (bigs h') (balance (sobjs h' 1)) = Some 50 \<and>
       nonce (sobjs h' 1) = 0 \<and> code (sobjs h' 1) = None \<and> extra (sobjs h' 1) = None \<and>
       cacheStorage (sobjs h' 1) = Some Map.empty \<and> stateRoot (sobjs h' 1) = HashZ)"
proof -
  have c: "objs (sdbs h_ex 0) [65] = Some 0"
    by (simp add: h_ex_sdb)
  have wf: "\<forall>r. objs (sdbs h_ex 0) [65] = Some r \<longrightarrow> r < sobj_count h_ex"
    by (simp add: h_ex_sdb h_ex_counts)
  show ?thesis
    using CreateAccount_fresh_object [OF wf, of "test_ext []"]
    by (simp add: GetStateObj_cached [OF c] Let_def h_ex_counts h_ex_obj h_ex_big)
qed

section \<open>The methods without a body\<close>

text \<open>
  Claim C4. The claim says that no access-list, refund, snapshot, self-destruct or log
  method reports success without an effect. In the code their bodies are commented out
  and the return values are constants, against the comments above them (\<^verbatim>\<open>Suicide\<close>
  "clears the account balance", \<^verbatim>\<open>SubRefund\<close> "will panic if the refund counter goes below
  zero", \<^verbatim>\<open>AddressInAccessList\<close> "returns true if the given address is in the access
  list"): after \<^verbatim>\<open>st.AddBalance(a, 50)\<close> on a new StateDB, \<^verbatim>\<open>Suicide(a)\<close> returns true and
  the balance still reads 50; \<^verbatim>\<open>AddressInAccessList(b)\<close> is true although nothing was
  added; \<^verbatim>\<open>SubRefund(1)\<close> returns normally on the refund counter 0.
\<close>

theorem placeholders_report_success:
  "(let (st, h1) = NewStateDB None [] (heap0 X);
        (fifty, h2) = new_Int 50 h1;
        h3 = StateDB_AddBalance X st [1] (Some fifty) h2
    in StateDB_Suicide st [1] h3 = (True, h3) \<and>
       bigs h3 (fst (StateDB_GetBalance X st [1] h3)) = 50 \<and>
       StateDB_AddressInAccessList st [2] h3 \<and>
       StateDB_GetRefund st h3 = 0 \<and>
       StateDB_SubRefund st 1 h3 = Inr h3 \<and>
       StateDB_Snapshot st h3 = (0, h3) \<and>
       StateDB_RevertToSnapshot st 0 h3 = h3)"
  by (simp add: Let_def NewStateDB_def NewTree_def version_at_def heap0_def heap_ops
      StateDB_AddBalance_def StateDB_GetOrNewStateObj_def StateDB_GetStateObj_def Tree_Get_def
      StateDB_newStateObj_def NewStateObj_def zero_stateObject_def stateObject_AddBalance_def
      big_Add_new_def stateObject_SetBalance_def StateDB_Suicide_def StateDB_GetBalance_def
      StateDB_AddressInAccessList_def StateDB_GetRefund_def StateDB_SubRefund_def
      StateDB_Snapshot_def StateDB_RevertToSnapshot_def)

section \<open>Storage through the StateDB\<close>

text \<open>
  Claim C9. \<^verbatim>\<open>StateDB.SetState\<close> returns the whole state as it was, and
  \<^verbatim>\<open>StateDB.GetState\<close> returns the zero hash in every state, also after a write to the
  account's storage. The storage of an account is written and read on the object:
  \<^verbatim>\<open>stateObject.SetState\<close> panics exactly when the object's storage map is nil, and
  otherwise buffers the value, which \<^verbatim>\<open>GetStateValue\<close> returns.
\<close>

theorem StateDB_SetState_is_inert:
  "StateDB_SetState st addr k v h = h \<and>
   StateDB_GetState st addr k h = HashZ \<and>
   (case stateObject_SetState so k v h of
      Inl e \<Rightarrow> cacheStorage (sobjs h so) = None
    | Inr h1 \<Rightarrow> cacheStorage (sobjs h so) \<noteq> None \<and>
                fst (stateObject_GetStateValue X so k h1) = Some v \<and>
                StateDB_GetState st addr k h1 = HashZ)"
  by (simp add: StateDB_SetState_def StateDB_GetState_def stateObject_SetState_def
      stateObject_GetStateValue_def upd_obj_def split: option.splits)

theorem StateDB_SetState_is_inert_witness:
  "StateDB_SetState 0 [65] [7] [9] h_nil = h_nil \<and>
   StateDB_GetState 0 [65] [7] h_nil = HashZ \<and>
   (case stateObject_SetState 0 [7] [9] h_nil of
      Inl e \<Rightarrow> False
    | Inr h1 \<Rightarrow> fst (stateObject_GetStateValue (test_ext []) 0 [7] h1) = Some [9] \<and>
                StateDB_GetState 0 [65] [7] h1 = HashZ)"
proof -
  have "cacheStorage (sobjs h_nil 0) = Some Map.empty"
    by (simp add: h_nil_obj)
  then show ?thesis
    using StateDB_SetState_is_inert [of 0 "[65]" "[7]" "[9]" h_nil 0 "test_ext []"]
    by (simp split: sum.splits)
qed

section \<open>Copying a StateDB\<close>









section \<open>Accessors that create the account\<close>

lemma opened_root_stores:
  assumes "stores h' = stores h"
  shows "opened_root X ob h' = opened_root X ob h"
  unfolding opened_root_def version_at_stores [OF assms] ..

lemma Encode_objmap_nil_balance:
  "balance ob = None \<Longrightarrow> Encode_objmap X ob h' = Encode_objmap X ob h"
  by (simp add: Encode_objmap_def big_Text_def)

lemma flush_inv_parts:
  assumes "flush_inv X st S n new key h"
  shows "sdbs h st = S" and "sobj_count h = n" and "st_merkleTree S < tree_count h"
    and "\<forall>a r. objs S a = Some r \<longrightarrow>
           r < n \<and> (\<exists>t. merkleTree (sobjs h r) = Some t \<and> t < tree_count h)"
    and "\<forall>a r. objs S a = Some r \<longrightarrow> r \<noteq> new \<longrightarrow>
           merkleTree (sobjs h r) = Some (st_merkleTree S) \<longrightarrow>
           SHA256 X (address (sobjs h r)) \<noteq> key"
  using assms unfolding flush_inv_def by simp_all

lemma flush_inv_frame:
  assumes inv: "flush_inv X st S n new key h"
    and d: "sdbs h' st = sdbs h st" and c: "sobj_count h' = sobj_count h"
    and tc: "tree_count h \<le> tree_count h'"
    and m: "\<And>q. merkleTree (sobjs h' q) = merkleTree (sobjs h q)"
    and ad: "\<And>q. address (sobjs h' q) = address (sobjs h q)"
  shows "flush_inv X st S n new key h'"
  unfolding flush_inv_def
proof (intro conjI allI impI)
  note P = flush_inv_parts [OF inv]
  show "sdbs h' st = S" using P(1) d by simp
  show "sobj_count h' = n" using P(2) c by simp
  show "st_merkleTree S < tree_count h'" using P(3) tc by simp
  fix a r assume o: "objs S a = Some r"
  from P(4) [rule_format, OF o] obtain t where r: "r < n"
    and t: "merkleTree (sobjs h r) = Some t" "t < tree_count h"
    by (elim conjE exE)
  show "r < n" by (rule r)
  have "merkleTree (sobjs h' r) = Some t \<and> t < tree_count h'"
    using t tc by (simp add: m)
  then show "\<exists>t. merkleTree (sobjs h' r) = Some t \<and> t < tree_count h'" ..
  assume rn: "r \<noteq> new" and mt: "merkleTree (sobjs h' r) = Some (st_merkleTree S)"
  have "merkleTree (sobjs h r) = Some (st_merkleTree S)" using mt by (simp add: m)
  from P(5) [rule_format, OF o rn this]
  show "SHA256 X (address (sobjs h' r)) \<noteq> key" by (simp add: ad)
qed

lemma flush_step:
  assumes inv: "flush_inv X st S n new key h" and a: "objs S a = Some r" and rn: "r \<noteq> new"
  shows "\<exists>h'. stateObject_Update X ks r h = Inr h' \<and> flush_inv X st S n new key h' \<and>
           sobjs h' new = sobjs h new \<and> stores h' = stores h \<and>
           entries (trees h' (st_merkleTree S)) key = entries (trees h (st_merkleTree S)) key"
proof -
  note P = flush_inv_parts [OF inv]
  from P(4) [rule_format, OF a] obtain t where t: "merkleTree (sobjs h r) = Some t"
    and tl: "t < tree_count h"
    by (elim conjE exE)
  have mt: "st_merkleTree S < tree_count h" by (rule P(3))
  obtain h' where u: "stateObject_Update X ks r h = Inr h'"
    and s: "sobjs h' = (sobjs h)(r := (sobjs h r)\<lparr>stateRoot := opened_root X (sobjs h r) h\<rparr>)"
    and d: "sdbs h' = sdbs h" and st: "stores h' = stores h"
    and c: "sobj_count h' = sobj_count h" and tc: "tree_count h \<le> tree_count h'"
    and tr: "\<forall>u<tree_count h. trees h' u =
               (if u = t
                then (trees h u)\<lparr>entries := (entries (trees h u))
                       (SHA256 X (address (sobjs h r)) \<mapsto>
                        bytes_of_string (SortAndEncodeMap X
                          (Encode_objmap X ((sobjs h r)\<lparr>stateRoot := opened_root X (sobjs h r) h\<rparr>) h)))\<rparr>
                else trees h u)"
    using Update_result [OF t, of X ks] by (elim exE conjE)
  have fields: "merkleTree (sobjs h' q) = merkleTree (sobjs h q)"
    "address (sobjs h' q) = address (sobjs h q)" for q
    by (simp_all add: s)
  have key: "t = st_merkleTree S \<Longrightarrow> SHA256 X (address (sobjs h r)) \<noteq> key"
    using P(5) [rule_format, OF a rn] t by simp
  have "trees h' (st_merkleTree S) =
          (if st_merkleTree S = t
           then (trees h (st_merkleTree S))\<lparr>entries := (entries (trees h (st_merkleTree S)))
                  (SHA256 X (address (sobjs h r)) \<mapsto>
                   bytes_of_string (SortAndEncodeMap X
                     (Encode_objmap X ((sobjs h r)\<lparr>stateRoot := opened_root X (sobjs h r) h\<rparr>) h)))\<rparr>
           else trees h (st_merkleTree S))"
    using tr [rule_format, OF mt] .
  then have e: "entries (trees h' (st_merkleTree S)) key = entries (trees h (st_merkleTree S)) key"
    using key by (cases "st_merkleTree S = t") simp_all
  have i: "flush_inv X st S n new key h'"
    using inv _ c tc fields by (rule flush_inv_frame) (simp add: d)
  show ?thesis
    using u i e st rn by (simp add: s)
qed

lemma flush_new:
  assumes inv: "flush_inv X st S n new key h" and a: "objs S a = Some new"
    and m: "merkleTree (sobjs h new) = Some (st_merkleTree S)"
    and k: "key = SHA256 X (address (sobjs h new))"
  shows "\<exists>h'. stateObject_Update X ks new h = Inr h' \<and> flush_inv X st S n new key h' \<and>
           stores h' = stores h \<and>
           entries (trees h' (st_merkleTree S)) key =
             Some (bytes_of_string (SortAndEncodeMap X
                (Encode_objmap X ((sobjs h new)\<lparr>stateRoot := opened_root X (sobjs h new) h\<rparr>) h)))"
proof -
  have mt: "st_merkleTree S < tree_count h" by (rule flush_inv_parts(3) [OF inv])
  obtain h' where u: "stateObject_Update X ks new h = Inr h'"
    and s: "sobjs h' = (sobjs h)(new := (sobjs h new)\<lparr>stateRoot := opened_root X (sobjs h new) h\<rparr>)"
    and d: "sdbs h' = sdbs h" and st: "stores h' = stores h"
    and c: "sobj_count h' = sobj_count h" and tc: "tree_count h \<le> tree_count h'"
    and tr: "\<forall>u<tree_count h. trees h' u =
               (if u = st_merkleTree S
                then (trees h u)\<lparr>entries := (entries (trees h u))
                       (SHA256 X (address (sobjs h new)) \<mapsto>
                        bytes_of_string (SortAndEncodeMap X
                          (Encode_objmap X ((sobjs h new)\<lparr>stateRoot := opened_root X (sobjs h new) h\<rparr>) h)))\<rparr>
                else trees h u)"
    using Update_result [OF m, of X ks] by (elim exE conjE)
  have fields: "merkleTree (sobjs h' q) = merkleTree (sobjs h q)"
    "address (sobjs h' q) = address (sobjs h q)" for q
    by (simp_all add: s)
  have e: "entries (trees h' (st_merkleTree S)) key =
             Some (bytes_of_string (SortAndEncodeMap X
                (Encode_objmap X ((sobjs h new)\<lparr>stateRoot := opened_root X (sobjs h new) h\<rparr>) h)))"
    using tr mt by (simp add: k)
  have i: "flush_inv X st S n new key h'"
    using inv _ c tc fields by (rule flush_inv_frame) (simp add: d)
  show ?thesis
    using u i e st by simp
qed

lemma flush_rest:
  assumes "flush_inv X st S n new key h"
    and "entries (trees h (st_merkleTree S)) key = Some rec"
    and "\<forall>p\<in>set vs. objs S (fst p) \<noteq> Some new"
  shows "\<exists>h'. StateDB_UpdateAll X vs st h = Inr h' \<and> sdbs h' st = S \<and>
           entries (trees h' (st_merkleTree S)) key = Some rec"
  using assms
proof (induction vs arbitrary: h)
  case Nil
  then show ?case by (simp add: flush_inv_def)
next
  case (Cons p vs)
  obtain a ks where p: "p = (a, ks)" by (cases p)
  have S: "sdbs h st = S" using Cons.prems(1) by (simp add: flush_inv_def)
  have rest: "\<forall>p\<in>set vs. objs S (fst p) \<noteq> Some new" using Cons.prems(3) by simp
  show ?case
  proof (cases "objs S a")
    case None
    then show ?thesis
      using Cons.IH [OF Cons.prems(1,2) rest] by (simp add: p S)
  next
    case (Some r)
    then have rn: "r \<noteq> new" using Cons.prems(3) by (auto simp: p)
    obtain h1 where u: "stateObject_Update X ks r h = Inr h1"
      and i: "flush_inv X st S n new key h1"
      and e: "entries (trees h1 (st_merkleTree S)) key = entries (trees h (st_merkleTree S)) key"
      using flush_step [OF Cons.prems(1) Some rn, of ks] by blast
    have e1: "entries (trees h1 (st_merkleTree S)) key = Some rec"
      using e Cons.prems(2) by simp
    show ?thesis
      using Cons.IH [OF i e1 rest] by (simp add: p S Some u)
  qed
qed

lemma flush_all:
  assumes "flush_inv X st S n new key h"
    and "sobjs h new = F" and "stores h = ST"
    and "merkleTree F = Some (st_merkleTree S)" and "key = SHA256 X (address F)"
    and "balance F = None"
    and "objs S addr = Some new" and "\<forall>a. objs S a = Some new \<longrightarrow> a = addr"
    and "distinct (map fst vs)" and "addr \<in> fst ` set vs"
  shows "\<exists>h'. StateDB_UpdateAll X vs st h = Inr h' \<and> sdbs h' st = S \<and>
           entries (trees h' (st_merkleTree S)) key =
             Some (bytes_of_string (SortAndEncodeMap X
                (Encode_objmap X (F\<lparr>stateRoot := opened_root X F h\<rparr>) h)))"
  using assms(1,2,3,9,10)
proof (induction vs arbitrary: h)
  case Nil
  then show ?case by simp
next
  case (Cons p vs)
  obtain a ks where p: "p = (a, ks)" by (cases p)
  have S: "sdbs h st = S" using Cons.prems(1) by (simp add: flush_inv_def)
  have dist: "distinct (map fst vs)" and notin: "a \<notin> fst ` set vs"
    using Cons.prems(4) by (simp_all add: p)
  show ?case
  proof (cases "a = addr")
    case True
    have on: "objs S a = Some new" using True assms(7) by simp
    have m: "merkleTree (sobjs h new) = Some (st_merkleTree S)"
      and k: "key = SHA256 X (address (sobjs h new))"
      using Cons.prems(2) assms(4,5) by simp_all
    obtain h1 where u: "stateObject_Update X ks new h = Inr h1"
      and i: "flush_inv X st S n new key h1"
      and e: "entries (trees h1 (st_merkleTree S)) key =
                Some (bytes_of_string (SortAndEncodeMap X
                  (Encode_objmap X ((sobjs h new)\<lparr>stateRoot := opened_root X (sobjs h new) h\<rparr>) h)))"
      using flush_new [OF Cons.prems(1) on m k, of ks] by blast
    have rest: "\<forall>p\<in>set vs. objs S (fst p) \<noteq> Some new"
      using notin True assms(8) by force
    show ?thesis
      using flush_rest [OF i e rest] by (simp add: p S on u Cons.prems(2))
  next
    case False
    then have in_rest: "addr \<in> fst ` set vs" using Cons.prems(5) by (auto simp: p)
    show ?thesis
    proof (cases "objs S a")
      case None
      then show ?thesis
        using Cons.IH [OF Cons.prems(1,2,3) dist in_rest] by (simp add: p S)
    next
      case (Some r)
      then have rn: "r \<noteq> new" using False assms(8) by auto
      obtain h1 where u: "stateObject_Update X ks r h = Inr h1"
        and i: "flush_inv X st S n new key h1"
        and f: "sobjs h1 new = sobjs h new" and st1: "stores h1 = stores h"
        using flush_step [OF Cons.prems(1) Some rn, of ks] by blast
      have f1: "sobjs h1 new = F" and s1: "stores h1 = ST"
        using f st1 Cons.prems(2,3) by simp_all
      have same: "Encode_objmap X (F\<lparr>stateRoot := opened_root X F h1\<rparr>) h1 =
                  Encode_objmap X (F\<lparr>stateRoot := opened_root X F h\<rparr>) h"
        using assms(6) by (simp add: opened_root_stores [OF st1] Encode_objmap_nil_balance)
      show ?thesis
        using Cons.IH [OF i f1 s1 dist in_rest] by (simp add: p S Some u same)
    qed
  qed
qed

lemma GetOrNewStateObj_absent:
  assumes "objs (sdbs h st) addr = None"
    and "Tree_Get (st_merkleTree (sdbs h st)) (SHA256 X addr) h = None"
  shows "StateDB_GetOrNewStateObj X st addr h =
           (Some (sobj_count h),
            h\<lparr>sobjs := (sobjs h)(sobj_count h :=
                  \<lparr>merkleTree = Some (st_merkleTree (sdbs h st)), address = addr, balance = None,
                   nonce = 0, extra = None, code = None, stateRoot = HashZ,
                   cacheStorage = Some Map.empty, db = treeDB (sdbs h st)\<rparr>),
              sobj_count := Suc (sobj_count h),
              sdbs := (sdbs h)(st := (sdbs h st)\<lparr>objs := (objs (sdbs h st))(addr \<mapsto> sobj_count h)\<rparr>)\<rparr>)"
  using assms
  by (simp add: StateDB_GetOrNewStateObj_def GetStateObj_absent StateDB_newStateObj_def
      NewStateObj_def new_stateObject_def upd_sdb_def zero_stateObject_def Let_def)

text \<open>
  Claim C10. For an address \<open>addr\<close> that is neither cached in \<open>st\<close> nor in its tree,
  \<^verbatim>\<open>GetExtra(addr)\<close> and \<^verbatim>\<open>GetStateRoot(addr)\<close> return nil and the zero hash and both
  leave the same state behind: a newly allocated empty object is cached under \<open>addr\<close>.
  \<^verbatim>\<open>HashAccount(addr)\<close>, false before, is true afterwards, and an \<^verbatim>\<open>UpdateAll()\<close> that
  follows writes the record of that empty account into the tree of \<open>st\<close> under
  \<open>SHA256(addr)\<close>, where there was none; the root, which is the checksum of that tree,
  changes whenever the checksum tells apart two contents that differ under this key.
  Assumed: the tree of \<open>st\<close> and the cached objects with their trees are allocated, no other
  cached object of the same tree has the same key, and the visit of \<^verbatim>\<open>UpdateAll\<close> takes
  each address once and reaches \<open>addr\<close>.
\<close>

theorem GetExtra_creates_account:
  assumes absent_cache: "objs (sdbs h st) addr = None"
    and absent_tree: "Tree_Get (st_merkleTree (sdbs h st)) (SHA256 X addr) h = None"
    and tree_alloc: "st_merkleTree (sdbs h st) < tree_count h"
    and cache_alloc: "\<forall>a r. objs (sdbs h st) a = Some r \<longrightarrow>
                        r < sobj_count h \<and>
                        (\<exists>t. merkleTree (sobjs h r) = Some t \<and> t < tree_count h)"
    and no_clash: "\<forall>a r. objs (sdbs h st) a = Some r \<longrightarrow>
                     merkleTree (sobjs h r) = Some (st_merkleTree (sdbs h st)) \<longrightarrow>
                     SHA256 X (address (sobjs h r)) \<noteq> SHA256 X addr"
    and visit_once: "distinct (map fst vs)" and visit_addr: "addr \<in> fst ` set vs"
  shows "(let (e, h1) = StateDB_GetExtra X st addr h;
              (r, h1') = StateDB_GetStateRoot X st addr h;
              new = sobj_count h;
              obj = \<lparr>merkleTree = Some (st_merkleTree (sdbs h st)), address = addr,
                     balance = None, nonce = 0, extra = None, code = None, stateRoot = HashZ,
                     cacheStorage = Some Map.empty, db = treeDB (sdbs h st)\<rparr>;
              acct = bytes_of_string (SortAndEncodeMap X
                         (Encode_objmap X (obj\<lparr>stateRoot := opened_root X obj h\<rparr>) h))
          in e = None \<and> r = HashZ \<and> h1' = h1 \<and>
             fst (StateDB_HashAccount X st addr h) = False \<and>
             objs (sdbs h1 st) addr = Some new \<and> sobjs h1 new = obj \<and>
             fst (StateDB_HashAccount X st addr h1) = True \<and>
             (case StateDB_UpdateAll X vs st h1 of
                Inl err \<Rightarrow> False
              | Inr h2 \<Rightarrow>
                  Tree_Get (st_merkleTree (sdbs h2 st)) (SHA256 X addr) h2 = Some acct \<and>
                  ((\<forall>m m'. m (SHA256 X addr) \<noteq> m' (SHA256 X addr) \<longrightarrow>
                             Checksum X m \<noteq> Checksum X m') \<longrightarrow>
                   StateDB_Root X st h2 \<noteq> StateDB_Root X st h)))"
proof -
  define new where "new = sobj_count h"
  define obj where "obj = \<lparr>merkleTree = Some (st_merkleTree (sdbs h st)), address = addr,
                     balance = None, nonce = 0, extra = None, code = None, stateRoot = HashZ,
                     cacheStorage = Some Map.empty, db = treeDB (sdbs h st)\<rparr>"
  define S where "S = (sdbs h st)\<lparr>objs := (objs (sdbs h st))(addr \<mapsto> new)\<rparr>"
  define h1 where "h1 = h\<lparr>sobjs := (sobjs h)(new := obj), sobj_count := Suc new,
                           sdbs := (sdbs h)(st := S)\<rparr>"
  define key where "key = SHA256 X addr"
  define acct where "acct = bytes_of_string (SortAndEncodeMap X
                         (Encode_objmap X (obj\<lparr>stateRoot := opened_root X obj h\<rparr>) h))"
  have G: "StateDB_GetOrNewStateObj X st addr h = (Some new, h1)"
    using GetOrNewStateObj_absent [OF absent_cache absent_tree]
    by (simp add: new_def obj_def S_def h1_def)
  have E: "StateDB_GetExtra X st addr h = (None, h1)"
    by (simp add: StateDB_GetExtra_def G stateObject_GetExtra_def) (simp add: h1_def obj_def)
  have R: "StateDB_GetStateRoot X st addr h = (HashZ, h1)"
    by (simp add: StateDB_GetStateRoot_def G stateObject_GetStateRoot_def) (simp add: h1_def obj_def)
  have H0: "fst (StateDB_HashAccount X st addr h) = False"
    by (simp add: StateDB_HashAccount_def GetStateObj_absent [OF absent_cache absent_tree])
  have S1: "sdbs h1 st = S" and o1: "sobjs h1 new = obj" and c1: "sobj_count h1 = Suc new"
    and t1: "trees h1 = trees h" and tc1: "tree_count h1 = tree_count h"
    and st1: "stores h1 = stores h"
    by (simp_all add: h1_def)
  have oS: "objs S addr = Some new" by (simp add: S_def)
  have H1: "fst (StateDB_HashAccount X st addr h1) = True"
    by (simp add: StateDB_HashAccount_def GetStateObj_cached [where so = new] S1 oS)
  have mS: "st_merkleTree S = st_merkleTree (sdbs h st)" by (simp add: S_def)
  have old: "objs (sdbs h st) a = Some r" "r < new" "sobjs h1 r = sobjs h r"
    if "objs S a = Some r" "r \<noteq> new" for a r
  proof -
    have "a \<noteq> addr" using that by (auto simp: S_def)
    then show 1: "objs (sdbs h st) a = Some r" using that by (simp add: S_def)
    show 2: "r < new" using cache_alloc 1 by (simp add: new_def)
    show "sobjs h1 r = sobjs h r" using that(2) by (simp add: h1_def)
  qed
  have only: "\<forall>a. objs S a = Some new \<longrightarrow> a = addr"
  proof (intro allI impI)
    fix a assume "objs S a = Some new"
    show "a = addr"
    proof (rule ccontr)
      assume "a \<noteq> addr"
      then have "objs (sdbs h st) a = Some new" using \<open>objs S a = Some new\<close> by (simp add: S_def)
      then have "new < sobj_count h" using cache_alloc by blast
      then show False by (simp add: new_def)
    qed
  qed
  have inv: "flush_inv X st S (Suc new) new key h1"
    unfolding flush_inv_def
  proof (intro conjI allI impI)
    show "sdbs h1 st = S" by (rule S1)
    show "sobj_count h1 = Suc new" by (rule c1)
    show "st_merkleTree S < tree_count h1" using tree_alloc by (simp add: mS tc1)
    fix a r assume o: "objs S a = Some r"
    show "r < Suc new"
      using old(2) [OF o] by (cases "r = new") simp_all
    show "\<exists>t. merkleTree (sobjs h1 r) = Some t \<and> t < tree_count h1"
    proof (cases "r = new")
      case True
      then show ?thesis using tree_alloc by (simp add: o1 obj_def tc1)
    next
      case False
      from cache_alloc old(1) [OF o False]
      obtain t where "merkleTree (sobjs h r) = Some t" "t < tree_count h" by blast
      then show ?thesis by (simp add: old(3) [OF o False] tc1)
    qed
    assume rn: "r \<noteq> new" and m: "merkleTree (sobjs h1 r) = Some (st_merkleTree S)"
    have "merkleTree (sobjs h r) = Some (st_merkleTree (sdbs h st))"
      using m by (simp add: old(3) [OF o rn] mS)
    with no_clash old(1) [OF o rn]
    have "SHA256 X (address (sobjs h r)) \<noteq> SHA256 X addr" by blast
    then show "SHA256 X (address (sobjs h1 r)) \<noteq> key"
      by (simp add: old(3) [OF o rn] key_def)
  qed
  have f4: "merkleTree obj = Some (st_merkleTree S)" and f5: "key = SHA256 X (address obj)"
    and f6: "balance obj = None"
    by (simp_all add: obj_def mS key_def)
  obtain h2 where U: "StateDB_UpdateAll X vs st h1 = Inr h2" and S2: "sdbs h2 st = S"
    and e2: "entries (trees h2 (st_merkleTree S)) key =
               Some (bytes_of_string (SortAndEncodeMap X
                  (Encode_objmap X (obj\<lparr>stateRoot := opened_root X obj h1\<rparr>) h1)))"
    using flush_all [OF inv o1 refl f4 f5 f6 oS only visit_once visit_addr] by (elim exE conjE)
  have rec: "bytes_of_string (SortAndEncodeMap X
                (Encode_objmap X (obj\<lparr>stateRoot := opened_root X obj h1\<rparr>) h1)) = acct"
  proof -
    have "Encode_objmap X (obj\<lparr>stateRoot := opened_root X obj h\<rparr>) h1 =
          Encode_objmap X (obj\<lparr>stateRoot := opened_root X obj h\<rparr>) h"
      by (rule Encode_objmap_nil_balance) (simp add: f6)
    then show ?thesis
      by (simp add: acct_def opened_root_stores [OF st1])
  qed
  have get2: "Tree_Get (st_merkleTree (sdbs h2 st)) (SHA256 X addr) h2 = Some acct"
    using e2 by (simp add: Tree_Get_def S2 rec key_def)
  have root: "StateDB_Root X st h2 \<noteq> StateDB_Root X st h"
    if sens: "\<forall>m m'. m (SHA256 X addr) \<noteq> m' (SHA256 X addr) \<longrightarrow> Checksum X m \<noteq> Checksum X m'"
  proof -
    have "entries (trees h2 (st_merkleTree (sdbs h2 st))) (SHA256 X addr) \<noteq>
          entries (trees h (st_merkleTree (sdbs h st))) (SHA256 X addr)"
      using get2 absent_tree by (simp add: Tree_Get_def)
    with sens show ?thesis
      unfolding StateDB_Root_def Tree_Checksum_def by blast
  qed
  show ?thesis
    unfolding E R Let_def split_conv new_def [symmetric] obj_def [symmetric] acct_def [symmetric]
      U sum.case
    using H0 oS o1 H1 get2 root by (simp add: S1)
qed

lemma nat_Text_0: "nat_Text 0 = ''0''"
  by code_simp

lemma char_B: "char_of (66::nat) = CHR ''B''"
  by code_simp

theorem GetExtra_creates_account_witness:
  "fst (StateDB_GetExtra (test_ext [66]) 0 [66] h_ex) = None \<and>
   fst (StateDB_GetStateRoot (test_ext [66]) 0 [66] h_ex) = HashZ \<and>
   fst (StateDB_HashAccount (test_ext [66]) 0 [66] h_ex) = False \<and>
   fst (StateDB_HashAccount (test_ext [66]) 0 [66] (snd (StateDB_GetExtra (test_ext [66]) 0 [66] h_ex))) = True \<and>
   (case StateDB_UpdateAll (test_ext [66]) [([65], []), ([66], [])] 0
           (snd (StateDB_GetExtra (test_ext [66]) 0 [66] h_ex)) of
      Inl err \<Rightarrow> False
    | Inr h2 \<Rightarrow>
        Tree_Get (st_merkleTree (sdbs h2 0)) [66] h2 =
          Some (bytes_of_string ''address=B&balance=<nil>&code=&nonce=0&'') \<and>
        StateDB_Root (test_ext [66]) 0 h2 \<noteq> StateDB_Root (test_ext [66]) 0 h_ex)"
proof -
  let ?X = "test_ext [66]"
  have a1: "objs (sdbs h_ex 0) [66] = None"
    by (simp add: h_ex_sdb)
  have a2: "Tree_Get (st_merkleTree (sdbs h_ex 0)) (SHA256 ?X [66]) h_ex = None"
    by (simp add: Tree_Get_def h_ex_sdb h_ex_tree)
  have a3: "st_merkleTree (sdbs h_ex 0) < tree_count h_ex"
    by (simp add: h_ex_sdb h_ex_counts)
  have a4: "\<forall>a r. objs (sdbs h_ex 0) a = Some r \<longrightarrow>
              r < sobj_count h_ex \<and> (\<exists>t. merkleTree (sobjs h_ex r) = Some t \<and> t < tree_count h_ex)"
    by (auto simp: h_ex_sdb h_ex_counts h_ex_obj split: if_splits)
  have a5: "\<forall>a r. objs (sdbs h_ex 0) a = Some r \<longrightarrow>
              merkleTree (sobjs h_ex r) = Some (st_merkleTree (sdbs h_ex 0)) \<longrightarrow>
              SHA256 ?X (address (sobjs h_ex r)) \<noteq> SHA256 ?X [66]"
    by (auto simp: h_ex_sdb h_ex_obj test_ext_def split: if_splits)
  have a6: "distinct (map fst [([65::byte], []::bytes list), ([66], [])])"
    and a7: "[66] \<in> fst ` set [([65::byte], []::bytes list), ([66], [])]"
    by simp_all
  have sens: "\<forall>m m'. m (SHA256 ?X [66]) \<noteq> m' (SHA256 ?X [66]) \<longrightarrow> Checksum ?X m \<noteq> Checksum ?X m'"
    by (auto simp: test_ext_def split: option.splits)
  have st: "stores h_ex = (\<lambda>d. Map.empty)"
    by (simp add: h_ex_def test_eval)
  have root0: "opened_root ?X
                 \<lparr>merkleTree = Some (st_merkleTree (sdbs h_ex 0)), address = [66], balance = None,
                  nonce = 0, extra = None, code = None, stateRoot = HashZ,
                  cacheStorage = Some Map.empty, db = treeDB (sdbs h_ex 0)\<rparr> h_ex = HashZ"
    by (simp add: opened_root_def version_at_def h_ex_sdb test_ext_def HashZ_def)
  have acct: "bytes_of_string (SortAndEncodeMap ?X
                (Encode_objmap ?X
                   (\<lparr>merkleTree = Some (st_merkleTree (sdbs h_ex 0)), address = [66], balance = None,
                     nonce = 0, extra = None, code = None, stateRoot = HashZ,
                     cacheStorage = Some Map.empty, db = treeDB (sdbs h_ex 0)\<rparr>
                    \<lparr>stateRoot := HashZ\<rparr>) h_ex)) =
              bytes_of_string ''address=B&balance=<nil>&code=&nonce=0&''"
    by (simp add: Encode_objmap_def Let_def big_Text_def slice_bytes_def nat_Text_0 test_ext_def
        string_of_bytes_def char_B)
  note T = GetExtra_creates_account [OF a1 a2 a3 a4 a5 a6 a7, unfolded Let_def split_beta root0 acct]
  from T have t1: "fst (StateDB_GetExtra ?X 0 [66] h_ex) = None"
    and t2: "fst (StateDB_GetStateRoot ?X 0 [66] h_ex) = HashZ"
    and t3: "fst (StateDB_HashAccount ?X 0 [66] h_ex) = False"
    and t4: "fst (StateDB_HashAccount ?X 0 [66] (snd (StateDB_GetExtra ?X 0 [66] h_ex))) = True"
    by blast+
  from T have t5: "case StateDB_UpdateAll ?X [([65], []), ([66], [])] 0
                          (snd (StateDB_GetExtra ?X 0 [66] h_ex)) of
          Inl err \<Rightarrow> False
        | Inr h2 \<Rightarrow>
            Tree_Get (st_merkleTree (sdbs h2 0)) (SHA256 ?X [66]) h2 =
              Some (bytes_of_string ''address=B&balance=<nil>&code=&nonce=0&'') \<and>
            ((\<forall>m m'. m (SHA256 ?X [66]) \<noteq> m' (SHA256 ?X [66]) \<longrightarrow> Checksum ?X m \<noteq> Checksum ?X m') \<longrightarrow>
             StateDB_Root ?X 0 h2 \<noteq> StateDB_Root ?X 0 h_ex)"
    by blast
  have k: "SHA256 ?X [66] = [66]" by (simp add: test_ext_def)
  show ?thesis
    using t1 t2 t3 t4 t5 sens by (cases "StateDB_UpdateAll ?X [([65], []), ([66], [])] 0
                          (snd (StateDB_GetExtra ?X 0 [66] h_ex))") (simp_all add: k)
qed

end
